theory Spec2Isabelle
  imports Complex_Main "HOL-Library.Log_Nat"
begin

section \<open>JavaScript numbers\<close>

text \<open>
  Both modules compute with JavaScript numbers, which are IEEE 754 doubles. A number
  is modelled by the real it denotes. An arithmetic operator of the source is the exact
  operator followed by \<open>fl\<close>, the rounding to the nearest double (ties to even, 53
  bits, subnormals below \<open>2^-1022\<close>); comparisons are exact. \<open>NaN\<close> and the infinities
  are not values of the model: a result beyond the largest double stays a real. The
  statements below bound the operands where that could happen.
\<close>

text \<open>\<open>exponent m\<close> is the floor of the binary logarithm of \<open>m > 0\<close>.\<close>

definition exponent :: "real \<Rightarrow> int" where
  "exponent m = (if 1 \<le> m then bitlen \<lfloor>m\<rfloor> - 1 else - bitlen (\<lceil>1 / m\<rceil> - 1))"

definition roundTiesToEven :: "real \<Rightarrow> int" where
  "roundTiesToEven y =
     (let f = \<lfloor>y\<rfloor>; r = y - real_of_int f
      in if r < 1 / 2 then f
         else if 1 / 2 < r then f + 1
         else if even f then f else f + 1)"

definition fl :: "real \<Rightarrow> real" where
  "fl x =
     (if x = 0 then 0
      else
        let u = 2 powi (max (exponent \<bar>x\<bar>) (- 1022) - 52)
        in real_of_int (roundTiesToEven (x / u)) * u)"

text \<open>
  \<open>x | 0\<close> is \<open>ToInt32\<close>: the number is truncated toward zero and then wrapped into
  the signed 32-bit range. The result is an integer, so nothing is rounded.
\<close>

definition trunc :: "real \<Rightarrow> int" where
  "trunc x = (if x < 0 then \<lceil>x\<rceil> else \<lfloor>x\<rfloor>)"

definition toInt32 :: "real \<Rightarrow> int" where
  "toInt32 x =
     (let k = trunc x mod 4294967296
      in if 2147483648 \<le> k then k - 4294967296 else k)"

text \<open>\<open>x | 0\<close>, as a number again.\<close>

definition bitor0 :: "real \<Rightarrow> real" where
  "bitor0 x = real_of_int (toInt32 x)"

section \<open>ReactFiberExpirationTime.js\<close>

text \<open>
  The module imports \<open>MAX_SIGNED_31_BIT_INT\<close> from \<open>./maxSigned31BitInt\<close> and reads the
  build flag \<open>__DEV__\<close>; neither is defined in the two source files. Every function
  that depends on them takes them as a parameter, the record \<open>build\<close>.
\<close>

record build =
  MAX_SIGNED_31_BIT_INT :: real
  DEV :: bool

text \<open>
  Modelled from the spec: the file \<open>maxSigned31BitInt.js\<close> is missing, and the spec says
  of the constant only that it is fixed and large. The value is the one the name of the
  import states: the largest signed 31-bit integer, \<open>2^30 - 1\<close>. It is used where a
  statement needs a number; the general theorems hold for every \<open>build\<close>.
\<close>

definition react :: "bool \<Rightarrow> build" where
  "react dev = \<lparr>MAX_SIGNED_31_BIT_INT = 1073741823, DEV = dev\<rparr>"

text \<open>
  Modelled from the spec: the priority levels are imported from
  \<open>./SchedulerWithReactIntegration\<close>, which is missing; the spec has them as an
  enumeration. Only the four that the module imports are listed.
\<close>

datatype ReactPriorityLevel =
  ImmediatePriority | UserBlockingPriority | NormalPriority | IdlePriority

text \<open>
  The three constants and \<open>msToExpirationTime\<close> are written without \<open>fl\<close>: for an
  integer maximum below \<open>2^53\<close> the differences are integers and exact, and the
  truncation \<open>| 0\<close> of the quotient \<open>ms / 10\<close> is the same before and after rounding for
  doubles \<open>0 \<le> ms < 2^31 * 10\<close>.
\<close>

definition NoWork :: real where
  "NoWork = 0"

definition Never :: real where
  "Never = 1"

definition Sync :: "build \<Rightarrow> real" where
  "Sync b = MAX_SIGNED_31_BIT_INT b"

definition Batched :: "build \<Rightarrow> real" where
  "Batched b = Sync b - 1"

definition UNIT_SIZE :: real where
  "UNIT_SIZE = 10"

definition MAGIC_NUMBER_OFFSET :: "build \<Rightarrow> real" where
  "MAGIC_NUMBER_OFFSET b = Batched b - 1"

definition msToExpirationTime :: "build \<Rightarrow> real \<Rightarrow> real" where
  "msToExpirationTime b ms = MAGIC_NUMBER_OFFSET b - bitor0 (ms / UNIT_SIZE)"

definition expirationTimeToMs :: "build \<Rightarrow> real \<Rightarrow> real" where
  "expirationTimeToMs b expirationTime =
     fl (fl (MAGIC_NUMBER_OFFSET b - expirationTime) * UNIT_SIZE)"

text \<open>The source's \<open>ceiling\<close>; the name is taken in HOL.\<close>

definition ceiling_num :: "real \<Rightarrow> real \<Rightarrow> real" where
  "ceiling_num num precision = fl (fl (bitor0 (fl (num / precision)) + 1) * precision)"

definition computeExpirationBucket :: "build \<Rightarrow> real \<Rightarrow> real \<Rightarrow> real \<Rightarrow> real" where
  "computeExpirationBucket b currentTime expirationInMs bucketSizeMs =
     fl (MAGIC_NUMBER_OFFSET b -
       ceiling_num
         (fl (fl (MAGIC_NUMBER_OFFSET b - currentTime) + fl (expirationInMs / UNIT_SIZE)))
         (fl (bucketSizeMs / UNIT_SIZE)))"

definition LOW_PRIORITY_EXPIRATION :: real where
  "LOW_PRIORITY_EXPIRATION = 5000"

definition LOW_PRIORITY_BATCH_SIZE :: real where
  "LOW_PRIORITY_BATCH_SIZE = 250"

definition computeAsyncExpiration :: "build \<Rightarrow> real \<Rightarrow> real" where
  "computeAsyncExpiration b currentTime =
     computeExpirationBucket b currentTime LOW_PRIORITY_EXPIRATION LOW_PRIORITY_BATCH_SIZE"

definition computeSuspenseExpiration :: "build \<Rightarrow> real \<Rightarrow> real \<Rightarrow> real" where
  "computeSuspenseExpiration b currentTime timeoutMs =
     computeExpirationBucket b currentTime timeoutMs LOW_PRIORITY_BATCH_SIZE"

definition computeAsyncExpirationNoBucket :: "real \<Rightarrow> real" where
  "computeAsyncExpirationNoBucket currentTime =
     fl (currentTime - fl (LOW_PRIORITY_EXPIRATION / UNIT_SIZE))"

definition HIGH_PRIORITY_EXPIRATION :: "build \<Rightarrow> real" where
  "HIGH_PRIORITY_EXPIRATION b = (if DEV b then 500 else 150)"

definition HIGH_PRIORITY_BATCH_SIZE :: real where
  "HIGH_PRIORITY_BATCH_SIZE = 100"

definition computeInteractiveExpiration :: "build \<Rightarrow> real \<Rightarrow> real" where
  "computeInteractiveExpiration b currentTime =
     computeExpirationBucket b currentTime
       (HIGH_PRIORITY_EXPIRATION b) HIGH_PRIORITY_BATCH_SIZE"

definition inferPriorityFromExpirationTime ::
  "build \<Rightarrow> real \<Rightarrow> real \<Rightarrow> ReactPriorityLevel" where
  "inferPriorityFromExpirationTime b currentTime expirationTime =
     (if expirationTime = Sync b then ImmediatePriority
      else if expirationTime = Never then IdlePriority
      else
        let msUntil =
          fl (expirationTimeToMs b expirationTime - expirationTimeToMs b currentTime)
        in if msUntil \<le> 0 then ImmediatePriority
           else if msUntil \<le> fl (HIGH_PRIORITY_EXPIRATION b + HIGH_PRIORITY_BATCH_SIZE)
             then UserBlockingPriority
           else if msUntil \<le> fl (LOW_PRIORITY_EXPIRATION + LOW_PRIORITY_BATCH_SIZE)
             then NormalPriority
           else IdlePriority)"

text \<open>
  The spec's bucket rounding, in the spec's words: \<open>(floor(value/precision) + 1) * precision\<close>,
  in exact arithmetic. It is compared with \<open>ceiling_num\<close>, which is the source's.
\<close>

definition ceilingBucket_spec :: "real \<Rightarrow> real \<Rightarrow> real" where
  "ceilingBucket_spec v p = (real_of_int \<lfloor>v / p\<rfloor> + 1) * p"

text \<open>
  The inputs on which \<open>computeExpirationBucket\<close> rounds nothing: an integer maximum and
  an integer current time, a timeout and a bucket size that are whole units of 10 ms,
  all of magnitude at most \<open>2^40\<close>, with a quotient in \<open>[0, 2^31)\<close>.
\<close>

definition exact_inputs :: "build \<Rightarrow> real \<Rightarrow> real \<Rightarrow> real \<Rightarrow> bool" where
  "exact_inputs b currentTime expirationInMs bucketSizeMs =
     (MAX_SIGNED_31_BIT_INT b \<in> \<int> \<and> \<bar>MAX_SIGNED_31_BIT_INT b\<bar> \<le> 1099511627776
      \<and> currentTime \<in> \<int> \<and> \<bar>currentTime\<bar> \<le> 1099511627776
      \<and> expirationInMs / UNIT_SIZE \<in> \<int> \<and> 0 \<le> expirationInMs
      \<and> expirationInMs \<le> 1099511627776
      \<and> bucketSizeMs / UNIT_SIZE \<in> \<int> \<and> 0 < bucketSizeMs \<and> bucketSizeMs \<le> 1099511627776
      \<and> currentTime \<le> MAGIC_NUMBER_OFFSET b + expirationInMs / UNIT_SIZE
      \<and> (MAGIC_NUMBER_OFFSET b - currentTime + expirationInMs / UNIT_SIZE)
            / (bucketSizeMs / UNIT_SIZE) < 2147483648)"

section \<open>SchedulerHostConfig.default.js\<close>

subsection \<open>Callbacks\<close>

text \<open>
  The callback handed to \<open>requestHostCallback\<close> is a function of the caller. All it
  can do to this module is call the exported functions, and then return or throw.
  A callback is therefore a name, the calls it makes in order, and whether it ends
  by throwing; a callback that throws midway is one with a shorter list of calls.
  \<open>shouldYieldToHost\<close> and \<open>getCurrentTime\<close> change no state and are left out of
  the calls.
\<close>

datatype 'c call =
  RequestHostCallback 'c real
  | CancelHostCallback
  | ForceFrameRate real

datatype callback = Callback (ident: nat) (body: "callback call list") (throws: bool)

text \<open>How a handler of the host ends: it returns, or an error leaves it.\<close>

datatype outcome = Returned | Threw

subsection \<open>The fallback without a DOM\<close>

text \<open>
  The branch taken when \<open>window\<close> is undefined or \<open>MessageChannel\<close> is not a function.
  Its state is the variable \<open>_callback\<close> and the zero-delay timers it has set, which
  the host runs in the order they were set. A timer is either
  \<open>setTimeout(_flushCallback, 0, false)\<close> or \<open>setTimeout(requestHostCallback, 0, cb)\<close>;
  the second passes the callback and nothing else. \<open>fb_invoked\<close> records each call
  of a callback with its argument.
\<close>

datatype task = FlushCallbackTask bool | RequestHostCallbackTask callback

record fallback =
  fb_callback :: "callback option"
  fb_timers :: "task list"
  fb_invoked :: "(callback \<times> bool) list"

definition initial_fallback :: fallback where
  "initial_fallback = \<lparr>fb_callback = None, fb_timers = [], fb_invoked = []\<rparr>"

text \<open>The parameter \<open>ms\<close> is \<open>None\<close> when the argument is left out (\<open>undefined\<close>).\<close>

definition requestHostCallback_fallback :: "callback \<Rightarrow> real option \<Rightarrow> fallback \<Rightarrow> fallback" where
  "requestHostCallback_fallback cb ms s =
     (if fb_callback s \<noteq> None
      then s\<lparr>fb_timers := fb_timers s @ [RequestHostCallbackTask cb]\<rparr>
      else s\<lparr>fb_callback := Some cb, fb_timers := fb_timers s @ [FlushCallbackTask False]\<rparr>)"

definition cancelHostCallback_fallback :: "fallback \<Rightarrow> fallback" where
  "cancelHostCallback_fallback s = s\<lparr>fb_callback := None\<rparr>"

definition forceFrameRate_fallback :: "real \<Rightarrow> fallback \<Rightarrow> fallback" where
  "forceFrameRate_fallback fps s = s"

fun run_call_fallback :: "callback call \<Rightarrow> fallback \<Rightarrow> fallback" where
  "run_call_fallback (RequestHostCallback c t) s = requestHostCallback_fallback c (Some t) s"
| "run_call_fallback CancelHostCallback s = cancelHostCallback_fallback s"
| "run_call_fallback (ForceFrameRate fps) s = forceFrameRate_fallback fps s"

definition invoke_fallback :: "callback \<Rightarrow> bool \<Rightarrow> fallback \<Rightarrow> fallback \<times> outcome" where
  "invoke_fallback cb didTimeout s =
     (fold run_call_fallback (body cb) (s\<lparr>fb_invoked := fb_invoked s @ [(cb, didTimeout)]\<rparr>),
      if throws cb then Threw else Returned)"

text \<open>\<open>_flushCallback\<close>: the \<open>finally\<close> block runs on both ways out of the call.\<close>

definition flushCallback :: "bool \<Rightarrow> fallback \<Rightarrow> fallback \<times> outcome" where
  "flushCallback didTimeout s =
     (case fb_callback s of
        None \<Rightarrow> (s, Returned)
      | Some cb \<Rightarrow>
          (case invoke_fallback cb didTimeout s of
             (s1, r) \<Rightarrow> (s1\<lparr>fb_callback := None\<rparr>, r)))"

text \<open>The host runs the oldest timer.\<close>

definition fireTimer :: "fallback \<Rightarrow> fallback \<times> outcome" where
  "fireTimer s =
     (case fb_timers s of
        [] \<Rightarrow> (s, Returned)
      | FlushCallbackTask didTimeout # ts \<Rightarrow> flushCallback didTimeout (s\<lparr>fb_timers := ts\<rparr>)
      | RequestHostCallbackTask cb # ts \<Rightarrow>
          (requestHostCallback_fallback cb None (s\<lparr>fb_timers := ts\<rparr>), Returned))"


text \<open>
  Whenever a callback is stored, a timer that flushes it is set. The fallback starts
  with this and every operation keeps it.
\<close>

fun is_flush :: "task \<Rightarrow> bool" where
  "is_flush (FlushCallbackTask d) = True"
| "is_flush (RequestHostCallbackTask c) = False"

definition flush_pending :: "fallback \<Rightarrow> bool" where
  "flush_pending s = (fb_callback s = None \<or> list_ex is_flush (fb_timers s))"

subsection \<open>The DOM implementation\<close>

text \<open>
  The state of the other branch: the module's variables, and what the module has
  handed to the host and the host has not run yet: the handles of the pending
  \<open>requestAnimationFrame\<close> requests and of the pending timers (all of them set by
  \<open>requestAnimationFrameWithTimeout\<close>, with \<open>animationTick\<close> as the callback), and the
  number of messages posted to the port. \<open>consoleErrors\<close> counts the calls of
  \<open>console.error\<close>, and \<open>invoked\<close> records each call of a callback with its argument.
  \<open>absoluteTimeout\<close> is a number. \<open>requestAnimationFrame\<close>, \<open>cancelAnimationFrame\<close>,
  \<open>setTimeout\<close> and \<open>clearTimeout\<close> are taken to exist.
\<close>

record host =
  scheduledHostCallback :: "callback option"
  isMessageEventScheduled :: bool
  timeoutTime :: real
  isAnimationFrameScheduled :: bool
  isFlushingHostCallback :: bool
  frameDeadline :: real
  previousFrameTime :: real
  activeFrameTime :: real
  fpsLocked :: bool
  rAFID :: "nat option"
  rAFTimeoutID :: "nat option"
  animationFrames :: "nat list"
  timeouts :: "nat list"
  nextHandle :: nat
  messages :: nat
  consoleErrors :: nat
  invoked :: "(callback \<times> bool) list"

definition initial :: host where
  "initial =
     \<lparr>scheduledHostCallback = None, isMessageEventScheduled = False, timeoutTime = - 1,
      isAnimationFrameScheduled = False, isFlushingHostCallback = False, frameDeadline = 0,
      previousFrameTime = 33, activeFrameTime = 33, fpsLocked = False,
      rAFID = None, rAFTimeoutID = None,
      animationFrames = [], timeouts = [], nextHandle = 1, messages = 0,
      consoleErrors = 0, invoked = []\<rparr>"

text \<open>The host's four primitives, on the handles.\<close>

definition localRequestAnimationFrame :: "host \<Rightarrow> nat \<times> host" where
  "localRequestAnimationFrame s =
     (nextHandle s,
      s\<lparr>animationFrames := animationFrames s @ [nextHandle s], nextHandle := nextHandle s + 1\<rparr>)"

definition localSetTimeout :: "host \<Rightarrow> nat \<times> host" where
  "localSetTimeout s =
     (nextHandle s,
      s\<lparr>timeouts := timeouts s @ [nextHandle s], nextHandle := nextHandle s + 1\<rparr>)"

definition localCancelAnimationFrame :: "nat option \<Rightarrow> host \<Rightarrow> host" where
  "localCancelAnimationFrame h s =
     (case h of None \<Rightarrow> s | Some k \<Rightarrow> s\<lparr>animationFrames := removeAll k (animationFrames s)\<rparr>)"

definition localClearTimeout :: "nat option \<Rightarrow> host \<Rightarrow> host" where
  "localClearTimeout h s =
     (case h of None \<Rightarrow> s | Some k \<Rightarrow> s\<lparr>timeouts := removeAll k (timeouts s)\<rparr>)"

text \<open>\<open>port.postMessage(undefined)\<close>.\<close>

definition postMessage :: "host \<Rightarrow> host" where
  "postMessage s = s\<lparr>messages := messages s + 1\<rparr>"

definition requestAnimationFrameWithTimeout :: "host \<Rightarrow> host" where
  "requestAnimationFrameWithTimeout s =
     (case localRequestAnimationFrame s of
        (h1, s1) \<Rightarrow>
          (case localSetTimeout (s1\<lparr>rAFID := Some h1\<rparr>) of
             (h2, s2) \<Rightarrow> s2\<lparr>rAFTimeoutID := Some h2\<rparr>))"

text \<open>
  The module is one of the two branches, chosen when it is loaded.
\<close>

record environment =
  hasWindow :: bool
  hasMessageChannel :: bool

datatype scheduler = Fallback fallback | Frame host

definition load :: "environment \<Rightarrow> scheduler" where
  "load env =
     (if \<not> hasWindow env \<or> \<not> hasMessageChannel env then Fallback initial_fallback
      else Frame initial)"

text \<open>\<open>now\<close> is what \<open>getCurrentTime()\<close> returns at the call.\<close>

fun shouldYieldToHost :: "scheduler \<Rightarrow> real \<Rightarrow> bool" where
  "shouldYieldToHost (Fallback f) now = False"
| "shouldYieldToHost (Frame s) now = (frameDeadline s \<le> now)"

definition forceFrameRate :: "real \<Rightarrow> host \<Rightarrow> host" where
  "forceFrameRate fps s =
     (if fps < 0 \<or> fps > 125 then s\<lparr>consoleErrors := consoleErrors s + 1\<rparr>
      else if fps > 0
        then s\<lparr>activeFrameTime := real_of_int \<lfloor>fl (1000 / fps)\<rfloor>, fpsLocked := True\<rparr>
      else s\<lparr>activeFrameTime := 33, fpsLocked := False\<rparr>)"

definition animationTick :: "real \<Rightarrow> host \<Rightarrow> host" where
  "animationTick rafTime s =
     (if scheduledHostCallback s \<noteq> None then
        let s1 = requestAnimationFrameWithTimeout s;
            nextFrameTime = fl (fl (rafTime - frameDeadline s1) + activeFrameTime s1);
            s2 =
              (if nextFrameTime < activeFrameTime s1
                  \<and> previousFrameTime s1 < activeFrameTime s1 \<and> \<not> fpsLocked s1
               then
                 let nextFrameTime = (if nextFrameTime < 8 then 8 else nextFrameTime)
                 in s1\<lparr>activeFrameTime :=
                      (if nextFrameTime < previousFrameTime s1 then previousFrameTime s1
                       else nextFrameTime)\<rparr>
               else s1\<lparr>previousFrameTime := nextFrameTime\<rparr>);
            s3 = s2\<lparr>frameDeadline := fl (rafTime + activeFrameTime s2)\<rparr>
        in if \<not> isMessageEventScheduled s3
           then postMessage (s3\<lparr>isMessageEventScheduled := True\<rparr>)
           else s3
      else s\<lparr>isAnimationFrameScheduled := False\<rparr>)"

definition requestHostCallback :: "callback \<Rightarrow> real \<Rightarrow> host \<Rightarrow> host" where
  "requestHostCallback callback absoluteTimeout s =
     (let s1 = s\<lparr>scheduledHostCallback := Some callback, timeoutTime := absoluteTimeout\<rparr>
      in if isFlushingHostCallback s1 \<or> absoluteTimeout < 0 then postMessage s1
         else if \<not> isAnimationFrameScheduled s1
           then requestAnimationFrameWithTimeout (s1\<lparr>isAnimationFrameScheduled := True\<rparr>)
         else s1)"

definition cancelHostCallback :: "host \<Rightarrow> host" where
  "cancelHostCallback s =
     s\<lparr>scheduledHostCallback := None, isMessageEventScheduled := False, timeoutTime := - 1\<rparr>"

fun run_call :: "callback call \<Rightarrow> host \<Rightarrow> host" where
  "run_call (RequestHostCallback c t) s = requestHostCallback c t s"
| "run_call CancelHostCallback s = cancelHostCallback s"
| "run_call (ForceFrameRate fps) s = forceFrameRate fps s"

definition invoke :: "callback \<Rightarrow> bool \<Rightarrow> host \<Rightarrow> host \<times> outcome" where
  "invoke cb didTimeout s =
     (fold run_call (body cb) (s\<lparr>invoked := invoked s @ [(cb, didTimeout)]\<rparr>),
      if throws cb then Threw else Returned)"

text \<open>
  The end of the message handler: the call of the callback between setting and
  clearing \<open>isFlushingHostCallback\<close>; the \<open>finally\<close> block runs on both ways out.
\<close>

definition flushHostCallback :: "callback option \<Rightarrow> bool \<Rightarrow> host \<Rightarrow> host \<times> outcome" where
  "flushHostCallback prevScheduledCallback didTimeout s =
     (case prevScheduledCallback of
        None \<Rightarrow> (s, Returned)
      | Some cb \<Rightarrow>
          (case invoke cb didTimeout (s\<lparr>isFlushingHostCallback := True\<rparr>) of
             (s1, r) \<Rightarrow> (s1\<lparr>isFlushingHostCallback := False\<rparr>, r)))"

text \<open>\<open>channel.port1.onmessage\<close>; \<open>now\<close> is the clock reading of the handler.\<close>

definition onmessage :: "real \<Rightarrow> host \<Rightarrow> host \<times> outcome" where
  "onmessage now s =
     (let s1 = s\<lparr>isMessageEventScheduled := False\<rparr>;
          prevScheduledCallback = scheduledHostCallback s1;
          prevTimeoutTime = timeoutTime s1;
          s2 = s1\<lparr>scheduledHostCallback := None, timeoutTime := - 1\<rparr>;
          currentTime = now
      in if frameDeadline s2 - currentTime \<le> 0 then
           if prevTimeoutTime \<noteq> - 1 \<and> prevTimeoutTime \<le> currentTime
           then flushHostCallback prevScheduledCallback True s2
           else
             let s3 =
               (if \<not> isAnimationFrameScheduled s2
                then requestAnimationFrameWithTimeout (s2\<lparr>isAnimationFrameScheduled := True\<rparr>)
                else s2)
             in (s3\<lparr>scheduledHostCallback := prevScheduledCallback,
                    timeoutTime := prevTimeoutTime\<rparr>, Returned)
         else flushHostCallback prevScheduledCallback False s2)"

text \<open>
  What the host can run next: the callback of a pending animation frame request with
  its timestamp, a pending timer, or a posted message; the last two with the clock
  reading of the handler. The two callbacks of \<open>requestAnimationFrameWithTimeout\<close> read
  the variables \<open>rAFTimeoutID\<close> and \<open>rAFID\<close> when they run. An event that is not
  pending changes nothing.
\<close>

datatype event = AnimationFrame nat real | Timeout nat real | Message real

fun fire :: "event \<Rightarrow> host \<Rightarrow> host \<times> outcome" where
  "fire (AnimationFrame h timestamp) s =
     (if h \<in> set (animationFrames s)
      then
        let s1 = s\<lparr>animationFrames := removeAll h (animationFrames s)\<rparr>
        in (animationTick timestamp (localClearTimeout (rAFTimeoutID s1) s1), Returned)
      else (s, Returned))"
| "fire (Timeout h now) s =
     (if h \<in> set (timeouts s)
      then
        let s1 = s\<lparr>timeouts := removeAll h (timeouts s)\<rparr>
        in (animationTick now (localCancelAnimationFrame (rAFID s1) s1), Returned)
      else (s, Returned))"
| "fire (Message now) s =
     (if 0 < messages s then onmessage now (s\<lparr>messages := messages s - 1\<rparr>)
      else (s, Returned))"

text \<open>An error that leaves a handler does not stop the host from running the next.\<close>

fun run :: "event list \<Rightarrow> host \<Rightarrow> host" where
  "run [] s = s"
| "run (e # es) s = run es (fst (fire e s))"




text \<open>
  What holds of the driver in every state it can reach, also in the middle of a
  callback: when an animation frame is marked as scheduled, the request named by
  \<open>rAFID\<close> is pending, and when a message is marked as scheduled, one is posted.
\<close>

definition consistent :: "host \<Rightarrow> bool" where
  "consistent s =
     ((if isAnimationFrameScheduled s then rAFID s \<in> set (map Some (animationFrames s))
       else True)
      \<and> (if isMessageEventScheduled s then 0 < messages s else True))"





text \<open>
  Callbacks for the examples: two that call nothing and return, one that throws, and
  one that asks for \<open>second_cb\<close> while it runs.
\<close>

definition first_cb :: callback where
  "first_cb = Callback 1 [] False"


definition thrower :: callback where
  "thrower = Callback 3 [] True"


section \<open>Doubles: lemmas\<close>

text \<open>\<open>exponent\<close> is the floor of the binary logarithm.\<close>

lemma exponent_bounds:
  assumes "0 < m"
  shows "2 powi (exponent m) \<le> m" and "m < 2 powi (exponent m + 1)"
proof -
  have "2 powi (exponent m) \<le> m \<and> m < 2 powi (exponent m + 1)"
  proof (cases "1 \<le> m")
    case True
    let ?n = "\<lfloor>m\<rfloor>"
    have n: "0 < ?n" using True by simp
    from bitlen_bounds [OF n] have lo: "2 ^ nat (bitlen ?n - 1) \<le> ?n"
      and hi: "?n < 2 ^ nat (bitlen ?n)" by simp_all
    have b1: "1 \<le> bitlen ?n" using n by (simp add: bitlen_alt_def)
    have e: "exponent m = bitlen ?n - 1" using True by (simp add: exponent_def)
    have "real_of_int (2 ^ nat (bitlen ?n - 1)) \<le> real_of_int ?n" using lo by (simp only: of_int_le_iff)
    also have "\<dots> \<le> m" by simp
    finally have 1: "2 powi (exponent m) \<le> m" using b1 by (simp add: e power_int_def)
    have "?n + 1 \<le> 2 ^ nat (bitlen ?n)" using hi by simp
    then have "real_of_int (?n + 1) \<le> real_of_int (2 ^ nat (bitlen ?n))" by (simp only: of_int_le_iff)
    moreover have "m < real_of_int (?n + 1)" by simp
    ultimately have "m < real_of_int (2 ^ nat (bitlen ?n))" by linarith
    then have 2: "m < 2 powi (exponent m + 1)" using b1 by (simp add: e power_int_def)
    show ?thesis using 1 2 ..
  next
    case False
    let ?y = "1 / m"
    let ?n = "\<lceil>?y\<rceil> - 1"
    have y: "1 < ?y" using False assms by simp
    have n: "0 < ?n" using y by linarith
    from bitlen_bounds [OF n] have lo: "2 ^ nat (bitlen ?n - 1) \<le> ?n"
      and hi: "?n < 2 ^ nat (bitlen ?n)" by simp_all
    have b1: "1 \<le> bitlen ?n" using n by (simp add: bitlen_alt_def)
    define k where "k = nat (bitlen ?n - 1)"
    have k: "bitlen ?n = int (Suc k)" using b1 by (simp add: k_def)
    have e: "exponent m = - int (Suc k)" using False by (simp add: exponent_def k)
    have nk: "nat (bitlen ?n) = Suc k" "nat (bitlen ?n - 1) = k" using k by simp_all
    have hi': "?n < 2 ^ Suc k" using hi by (simp only: nk)
    have lo': "2 ^ k \<le> ?n" using lo by (simp only: nk)
    have "?n + 1 \<le> 2 ^ Suc k" using hi' by linarith
    then have "real_of_int (?n + 1) \<le> real_of_int (2 ^ Suc k)" by (simp only: of_int_le_iff)
    then have "real_of_int \<lceil>?y\<rceil> \<le> 2 ^ Suc k" by simp
    moreover have "?y \<le> real_of_int \<lceil>?y\<rceil>" by (rule le_of_int_ceiling)
    ultimately have "?y \<le> 2 ^ Suc k" by (rule order_trans [rotated])
    then have "1 \<le> 2 ^ Suc k * m" using assms by (simp add: field_simps)
    have p1: "(2::real) powi (- int (Suc k)) = 1 / 2 ^ Suc k"
      by (simp only: power_int_minus power_int_of_nat) (simp add: field_simps)
    have p2: "(2::real) powi (- int (Suc k) + 1) = 1 / 2 ^ k"
    proof -
      have "- int (Suc k) + 1 = - int k" by simp
      then show ?thesis
        by (simp only: power_int_minus power_int_of_nat) (simp add: field_simps)
    qed
    then have 1: "2 powi (exponent m) \<le> m" using \<open>1 \<le> 2 ^ Suc k * m\<close>
      by (simp only: e p1) (simp add: field_simps)
    have "real_of_int (2 ^ k) \<le> real_of_int ?n" using lo' by (simp only: of_int_le_iff)
    moreover have "real_of_int ?n < ?y" by linarith
    ultimately have "2 ^ k < ?y" by simp
    then have "2 ^ k * m < 1" using assms by (simp add: field_simps)
    then have 2: "m < 2 powi (exponent m + 1)"
      by (simp only: e p2) (simp add: field_simps)
    show ?thesis using 1 2 ..
  qed
  then show "2 powi (exponent m) \<le> m" and "m < 2 powi (exponent m + 1)" by simp_all
qed

lemma roundTiesToEven_of_int [simp]: "roundTiesToEven (real_of_int k) = k"
  by (simp add: roundTiesToEven_def)

lemma roundTiesToEven_error: "\<bar>real_of_int (roundTiesToEven y) - y\<bar> \<le> 1 / 2"
proof -
  have "real_of_int \<lfloor>y\<rfloor> \<le> y" "y < real_of_int \<lfloor>y\<rfloor> + 1" by linarith+
  then show ?thesis by (auto simp add: roundTiesToEven_def Let_def)
qed

text \<open>Integers below \<open>2^53\<close> are doubles.\<close>

lemma fl_of_int:
  assumes "\<bar>n\<bar> < 9007199254740992"
  shows "fl (real_of_int n) = real_of_int n"
proof (cases "n = 0")
  case True
  then show ?thesis by (simp add: fl_def)
next
  case False
  let ?x = "real_of_int n"
  let ?e = "exponent \<bar>?x\<bar>"
  have m: "1 \<le> \<bar>?x\<bar>" using False by (simp flip: of_int_abs)
  have e0: "0 \<le> ?e" using m by (simp add: exponent_def bitlen_nonneg bitlen_alt_def flip: of_int_abs)
  have "(2::real) powi ?e \<le> \<bar>?x\<bar>" using m by (intro exponent_bounds(1)) simp
  also have "\<bar>?x\<bar> < 2 ^ 53" using assms by (simp flip: of_int_abs)
  finally have lt: "(2::real) powi ?e < 2 powi 53" by simp
  have "?e < 53"
  proof (rule ccontr)
    assume "\<not> ?e < 53"
    then have "(2::real) powi 53 \<le> 2 powi ?e" by (intro power_int_increasing) simp_all
    then show False using lt by simp
  qed
  define j where "j = nat (52 - ?e)"
  have j: "?e - 52 = - int j" using \<open>?e < 53\<close> by (simp add: j_def)
  have u: "(2::real) powi (max ?e (- 1022) - 52) = 1 / 2 ^ j"
    using e0 by (simp only: max_absorb1 j power_int_minus power_int_of_nat) (simp add: field_simps)
  have "?x / (1 / 2 ^ j) = real_of_int (n * 2 ^ j)" by simp
  then have "roundTiesToEven (?x / (1 / 2 ^ j)) = n * 2 ^ j"
    by (simp only: roundTiesToEven_of_int)
  then have "fl ?x = real_of_int (n * 2 ^ j) * (1 / 2 ^ j)"
    using False by (simp only: fl_def Let_def u) simp
  then show ?thesis by simp
qed

lemma fl_numeral [simp]:
  "(numeral k :: int) < 9007199254740992 \<Longrightarrow> fl (numeral k) = numeral k"
  using fl_of_int [of "numeral k"] by simp

lemma fl_neg_numeral [simp]:
  "(numeral k :: int) < 9007199254740992 \<Longrightarrow> fl (- numeral k) = - numeral k"
  using fl_of_int [of "- numeral k"] by simp

lemma fl_0 [simp]: "fl 0 = 0"
  by (simp add: fl_def)

lemma fl_1 [simp]: "fl 1 = 1"
  using fl_of_int [of 1] by simp

lemma fl_Ints:
  assumes "x \<in> \<int>" "\<bar>x\<bar> < 9007199254740992"
  shows "fl x = x"
proof -
  from assms(1) obtain n where x: "x = real_of_int n" by (rule Ints_cases)
  then have "\<bar>n\<bar> < 9007199254740992" using assms(2) by (simp flip: of_int_abs)
  then show ?thesis unfolding x by (rule fl_of_int)
qed

text \<open>In the normal range the rounding error is at most \<open>2^-53\<close> of the value.\<close>

lemma fl_error:
  assumes "2 powi (- 1022) \<le> \<bar>x\<bar>"
  shows "\<bar>fl x - x\<bar> \<le> \<bar>x\<bar> / 2 ^ 53"
proof -
  let ?e = "exponent \<bar>x\<bar>"
  let ?u = "(2::real) powi (?e - 52)"
  have "(0::real) < 2 powi (- 1022)" by simp
  then have pos: "0 < \<bar>x\<bar>" using assms by linarith
  then have x0: "x \<noteq> 0" by simp
  have lo: "2 powi ?e \<le> \<bar>x\<bar>" and hi: "\<bar>x\<bar> < 2 powi (?e + 1)"
    using exponent_bounds [OF pos] by simp_all
  have lt: "(2::real) powi (- 1022) < 2 powi (?e + 1)" using assms hi by linarith
  have "- 1022 < ?e + 1"
  proof (rule ccontr)
    assume "\<not> - 1022 < ?e + 1"
    then have "(2::real) powi (?e + 1) \<le> 2 powi (- 1022)"
      by (intro power_int_increasing) simp_all
    then show False using lt by simp
  qed
  then have e: "max ?e (- 1022) = ?e" by simp
  have u0: "0 < ?u" by simp
  have f: "fl x = real_of_int (roundTiesToEven (x / ?u)) * ?u"
    using x0 by (simp add: fl_def Let_def e)
  have "\<bar>fl x - x\<bar> = \<bar>real_of_int (roundTiesToEven (x / ?u)) - x / ?u\<bar> * ?u"
  proof -
    have "fl x - x = (real_of_int (roundTiesToEven (x / ?u)) - x / ?u) * ?u"
      using u0 by (simp add: f field_simps)
    then show ?thesis using u0 by (simp add: abs_mult)
  qed
  also have "\<dots> \<le> 1 / 2 * ?u"
    using roundTiesToEven_error [of "x / ?u"] u0 by (intro mult_right_mono) simp_all
  also have "?u = 2 powi ?e / 2 ^ 52"
    by (simp add: power_int_diff)
  also have "1 / 2 * (2 powi ?e / 2 ^ 52) \<le> 1 / 2 * (\<bar>x\<bar> / 2 ^ 52)"
    using lo by (intro mult_left_mono divide_right_mono) simp_all
  finally show ?thesis by simp
qed

text \<open>
  The quotient of two integers below \<open>2^53\<close> is rounded, and its floor is the floor of
  the exact quotient.
\<close>

lemma floor_fl_quotient:
  assumes a: "0 \<le> a" "a < 9007199254740992" and b: "1 \<le> b" "b < 9007199254740992"
  shows "\<lfloor>fl (real_of_int a / real_of_int b)\<rfloor> = a div b"
proof (cases "b dvd a")
  case True
  then have q: "real_of_int a / real_of_int b = real_of_int (a div b)"
    using b by (simp add: real_of_int_div)
  have "0 \<le> a div b" using a b by (simp add: pos_imp_zdiv_nonneg_iff)
  moreover have "a div b \<le> a" using zdiv_mono2 [of a 1 b] a b by simp
  ultimately have "\<bar>a div b\<bar> < 9007199254740992" using a by simp
  then show ?thesis by (simp only: q fl_of_int floor_of_int)
next
  case False
  let ?q = "real_of_int a / real_of_int b"
  let ?n = "a div b"
  let ?r = "a mod b"
  have bpos: "0 < real_of_int b" using b by simp
  have "?r \<noteq> 0" using False by (simp add: dvd_eq_mod_eq_0)
  moreover have "0 \<le> ?r" using b by simp
  ultimately have r1: "1 \<le> ?r" by linarith
  have r2: "?r \<le> b - 1" using b by (simp add: zle_diff1_eq)
  have "a = b * ?n + ?r" by simp
  then have "real_of_int a = real_of_int b * real_of_int ?n + real_of_int ?r"
    by (metis of_int_add of_int_mult)
  then have q: "?q = real_of_int ?n + real_of_int ?r / real_of_int b"
    using bpos by (simp add: field_simps)
  have ql: "real_of_int ?n + 1 / real_of_int b \<le> ?q"
    using r1 bpos by (simp add: q divide_right_mono)
  have "real_of_int ?r \<le> real_of_int (b - 1)" using r2 by (simp only: of_int_le_iff)
  then have "real_of_int ?r / real_of_int b \<le> real_of_int (b - 1) / real_of_int b"
    using bpos by (intro divide_right_mono) simp_all
  then have qh: "?q + 1 / real_of_int b \<le> real_of_int ?n + 1"
    using bpos by (simp add: q field_simps)
  have n0: "0 \<le> real_of_int ?n" using a b by (simp add: pos_imp_zdiv_nonneg_iff)
  have qpos: "1 / real_of_int b \<le> ?q" using ql n0 by linarith
  have "real_of_int b < 2 ^ 53" using b by simp
  then have "1 / 2 ^ 53 < 1 / real_of_int b" using bpos by (simp add: field_simps)
  then have small: "1 / 2 ^ 53 < ?q" using qpos by linarith
  have "(2::real) powi (- 1022) \<le> 1 / 2 ^ 53"
    by (simp add: power_int_minus field_simps)
  then have "2 powi (- 1022) \<le> \<bar>?q\<bar>" using small by linarith
  then have "\<bar>fl ?q - ?q\<bar> \<le> \<bar>?q\<bar> / 2 ^ 53" by (rule fl_error)
  moreover have "\<bar>?q\<bar> / 2 ^ 53 < 1 / real_of_int b"
  proof -
    have "real_of_int a < 2 ^ 53" using a by simp
    then have "real_of_int a / real_of_int b < 2 ^ 53 / real_of_int b"
      using bpos by (simp add: divide_strict_right_mono)
    moreover have "0 \<le> ?q" using a bpos by simp
    then have "\<bar>?q\<bar> = ?q" by (rule abs_of_nonneg)
    ultimately show ?thesis using bpos by (simp add: field_simps)
  qed
  ultimately have "\<bar>fl ?q - ?q\<bar> < 1 / real_of_int b" by linarith
  then have "real_of_int ?n < fl ?q" "fl ?q < real_of_int ?n + 1"
    using ql qh by linarith+
  then show ?thesis by (intro floor_unique) simp_all
qed

section \<open>Expiration times: lemmas\<close>

text \<open>On \<open>[0, 2^31)\<close> the operator \<open>| 0\<close> is the floor.\<close>

lemma toInt32_floor:
  assumes "0 \<le> x" "x < 2147483648"
  shows "toInt32 x = \<lfloor>x\<rfloor>"
proof -
  have t: "trunc x = \<lfloor>x\<rfloor>" using assms(1) by (simp add: trunc_def)
  have lo: "0 \<le> \<lfloor>x\<rfloor>" using assms(1) by simp
  have hi: "\<lfloor>x\<rfloor> < 2147483648" using assms(2) by (simp add: floor_less_iff)
  have "\<lfloor>x\<rfloor> mod 4294967296 = \<lfloor>x\<rfloor>" using lo hi by simp
  then show ?thesis using hi by (simp add: toInt32_def t Let_def)
qed

lemma bitor0_floor:
  "0 \<le> x \<Longrightarrow> x < 2147483648 \<Longrightarrow> bitor0 x = real_of_int \<lfloor>x\<rfloor>"
  by (simp add: bitor0_def toInt32_floor)

lemma msToExpirationTime_mono:
  assumes "0 \<le> a" "a < b" "b / 10 < 2147483648"
  shows "msToExpirationTime cfg b \<le> msToExpirationTime cfg a"
proof -
  have "\<lfloor>a / 10\<rfloor> \<le> \<lfloor>b / 10\<rfloor>" using assms by (intro floor_mono) simp
  then show ?thesis using assms
    by (simp add: msToExpirationTime_def UNIT_SIZE_def bitor0_floor)
qed

lemma msToExpirationTime_strict:
  assumes "0 \<le> a" "a + 10 \<le> b" "b / 10 < 2147483648"
  shows "msToExpirationTime cfg b < msToExpirationTime cfg a"
proof -
  have "a / 10 + 1 \<le> b / 10" using assms by simp
  then have "\<lfloor>a / 10 + 1\<rfloor> \<le> \<lfloor>b / 10\<rfloor>" by (rule floor_mono)
  then have "\<lfloor>a / 10\<rfloor> < \<lfloor>b / 10\<rfloor>" by simp
  then show ?thesis using assms
    by (simp add: msToExpirationTime_def UNIT_SIZE_def bitor0_floor)
qed

text \<open>The constants of the build with the 31-bit maximum.\<close>

lemma MAGIC_react: "MAGIC_NUMBER_OFFSET (react dev) = 1073741821"
  by (simp add: MAGIC_NUMBER_OFFSET_def Batched_def Sync_def react_def)

lemma Sync_react: "Sync (react dev) = 1073741823"
  by (simp add: Sync_def react_def)

lemma DEV_react: "DEV (react dev) = dev"
  by (simp add: react_def)

text \<open>There the bucket boundary lies strictly above the value, at most one bucket away.\<close>

lemma bucket_bounds:
  assumes "0 < p"
  shows "v < (real_of_int \<lfloor>v / p\<rfloor> + 1) * p" and "(real_of_int \<lfloor>v / p\<rfloor> + 1) * p \<le> v + p"
proof -
  have "v / p < real_of_int \<lfloor>v / p\<rfloor> + 1" by linarith
  then have "v / p * p < (real_of_int \<lfloor>v / p\<rfloor> + 1) * p"
    using assms by (rule mult_strict_right_mono)
  then show "v < (real_of_int \<lfloor>v / p\<rfloor> + 1) * p" using assms by simp
  have "real_of_int \<lfloor>v / p\<rfloor> \<le> v / p" by linarith
  then have "real_of_int \<lfloor>v / p\<rfloor> * p \<le> v / p * p"
    using assms by (intro mult_right_mono) simp_all
  then show "(real_of_int \<lfloor>v / p\<rfloor> + 1) * p \<le> v + p" using assms by (simp add: algebra_simps)
qed

text \<open>
  On integers the bucket rounding is exact: the quotient is rounded, but its floor is
  the floor of the exact quotient, and the other results are integers below \<open>2^53\<close>.
\<close>

lemma ceiling_num_int:
  assumes v: "v \<in> \<int>" "0 \<le> v" "v < 4503599627370496"
    and p: "p \<in> \<int>" "1 \<le> p" "p < 4503599627370496"
    and q: "v / p < 2147483648"
  shows "ceiling_num v p = (real_of_int \<lfloor>v / p\<rfloor> + 1) * p"
proof -
  from v(1) obtain a where a: "v = real_of_int a" by (rule Ints_cases)
  from p(1) obtain b where b: "p = real_of_int b" by (rule Ints_cases)
  have a': "0 \<le> a" "a < 9007199254740992" using v a by simp_all
  have b': "1 \<le> b" "b < 9007199254740992" using p b by simp_all
  let ?k = "\<lfloor>v / p\<rfloor>"
  have fq: "\<lfloor>fl (v / p)\<rfloor> = ?k"
    using floor_fl_quotient [OF a' b'] by (simp add: a b floor_divide_of_int_eq)
  have k0: "0 \<le> ?k" using v p by simp
  have k1: "?k < 2147483648" using q by (simp add: floor_less_iff)
  have "0 \<le> \<lfloor>fl (v / p)\<rfloor>" using k0 by (simp only: fq)
  then have f0: "0 \<le> fl (v / p)" by simp
  have "\<lfloor>fl (v / p)\<rfloor> < 2147483648" using k1 by (simp only: fq)
  then have f1: "fl (v / p) < 2147483648" by (simp add: floor_less_iff)
  have bo: "bitor0 (fl (v / p)) = real_of_int ?k"
    using bitor0_floor [OF f0 f1] by (simp only: fq)
  have "\<bar>?k + 1\<bar> < 9007199254740992" using k0 k1 by simp
  then have s1: "fl (real_of_int ?k + 1) = real_of_int ?k + 1"
    using fl_of_int [of "?k + 1"] by simp
  have p0: "0 < p" using p by simp
  have le: "(real_of_int ?k + 1) * p \<le> v + p" using bucket_bounds(2) [OF p0] .
  have ge: "0 \<le> (real_of_int ?k + 1) * p" using k0 p by simp
  have ci: "(real_of_int ?k + 1) * p \<in> \<int>" using p(1) by (intro Ints_mult Ints_add) simp_all
  have "\<bar>(real_of_int ?k + 1) * p\<bar> < 9007199254740992" using ge le v p by simp
  with ci have s2: "fl ((real_of_int ?k + 1) * p) = (real_of_int ?k + 1) * p"
    by (rule fl_Ints)
  show ?thesis by (simp only: ceiling_num_def bo s1 s2)
qed

lemma computeExpirationBucket_int:
  assumes "exact_inputs b ct H B"
  defines "v \<equiv> MAGIC_NUMBER_OFFSET b - ct + H / 10"
  defines "p \<equiv> B / 10"
  shows "computeExpirationBucket b ct H B =
           MAGIC_NUMBER_OFFSET b - (real_of_int \<lfloor>v / p\<rfloor> + 1) * p"
    and "v \<in> \<int>" and "p \<in> \<int>" and "0 \<le> v" and "1 \<le> p"
    and "v \<le> 3 * 1099511627776" and "p \<le> 1099511627776"
    and "MAGIC_NUMBER_OFFSET b \<in> \<int>" and "\<bar>MAGIC_NUMBER_OFFSET b\<bar> \<le> 1099511627776 + 2"
proof -
  have M: "MAX_SIGNED_31_BIT_INT b \<in> \<int>" "\<bar>MAX_SIGNED_31_BIT_INT b\<bar> \<le> 1099511627776"
    and c: "ct \<in> \<int>" "\<bar>ct\<bar> \<le> 1099511627776"
    and h: "H / 10 \<in> \<int>" "0 \<le> H" "H \<le> 1099511627776"
    and bk: "B / 10 \<in> \<int>" "0 < B" "B \<le> 1099511627776"
    and lo: "ct \<le> MAGIC_NUMBER_OFFSET b + H / 10"
    and hi: "(MAGIC_NUMBER_OFFSET b - ct + H / 10) / (B / 10) < 2147483648"
    using assms(1) by (simp_all add: exact_inputs_def UNIT_SIZE_def)
  have Mi: "MAGIC_NUMBER_OFFSET b \<in> \<int>"
    using M(1) by (simp add: MAGIC_NUMBER_OFFSET_def Batched_def Sync_def)
  have Mb: "\<bar>MAGIC_NUMBER_OFFSET b\<bar> \<le> 1099511627776 + 2"
    using M(2) by (simp add: MAGIC_NUMBER_OFFSET_def Batched_def Sync_def)
  show "MAGIC_NUMBER_OFFSET b \<in> \<int>" by (rule Mi)
  show "\<bar>MAGIC_NUMBER_OFFSET b\<bar> \<le> 1099511627776 + 2" by (rule Mb)
  have d: "fl (MAGIC_NUMBER_OFFSET b - ct) = MAGIC_NUMBER_OFFSET b - ct"
    using Mi c(1) Mb c(2) by (intro fl_Ints) (simp_all add: Ints_diff)
  have a: "fl (H / 10) = H / 10" using h by (intro fl_Ints) simp_all
  have vi: "v \<in> \<int>" unfolding v_def using Mi c(1) h(1) by (simp add: Ints_diff Ints_add)
  have v0: "0 \<le> v" unfolding v_def using lo by simp
  have vb: "v \<le> 3 * 1099511627776" unfolding v_def using Mb c(2) h by simp
  have fv: "fl (MAGIC_NUMBER_OFFSET b - ct + H / 10) = v"
    using vi v0 vb unfolding v_def by (intro fl_Ints) simp_all
  have pi: "p \<in> \<int>" unfolding p_def by (rule bk(1))
  have p0: "0 < p" unfolding p_def using bk(2) by simp
  have p1: "1 \<le> p"
  proof -
    from pi obtain n where n: "p = real_of_int n" by (rule Ints_cases)
    then have "0 < n" using p0 by simp
    then have "1 \<le> n" by simp
    then show ?thesis by (simp add: n)
  qed
  have pb: "p \<le> 1099511627776" unfolding p_def using bk by simp
  have fp: "fl (B / 10) = p" using pi p0 pb unfolding p_def by (intro fl_Ints) simp_all
  show "v \<in> \<int>" "p \<in> \<int>" "0 \<le> v" "1 \<le> p" "v \<le> 3 * 1099511627776" "p \<le> 1099511627776"
    by (rule vi pi v0 p1 vb pb)+
  have cn: "ceiling_num v p = (real_of_int \<lfloor>v / p\<rfloor> + 1) * p"
    using vi v0 vb pi p1 pb hi unfolding v_def p_def by (intro ceiling_num_int) simp_all
  let ?c = "(real_of_int \<lfloor>v / p\<rfloor> + 1) * p"
  have ci: "?c \<in> \<int>" using pi by (simp add: Ints_mult)
  have c0: "v < ?c" and c1: "?c \<le> v + p" using bucket_bounds [OF p0] by simp_all
  have r: "fl (MAGIC_NUMBER_OFFSET b - ?c) = MAGIC_NUMBER_OFFSET b - ?c"
    using Mi ci Mb c0 c1 v0 vb pb by (intro fl_Ints) (simp_all add: Ints_diff)
  show "computeExpirationBucket b ct H B = MAGIC_NUMBER_OFFSET b - ?c"
    by (simp only: computeExpirationBucket_def UNIT_SIZE_def d a fv fp cn r)
qed

lemma expirationTimeToMs_int:
  assumes "MAGIC_NUMBER_OFFSET b \<in> \<int>" "e \<in> \<int>" "\<bar>MAGIC_NUMBER_OFFSET b - e\<bar> \<le> 5 * 1099511627776"
  shows "expirationTimeToMs b e = (MAGIC_NUMBER_OFFSET b - e) * 10"
proof -
  have d: "MAGIC_NUMBER_OFFSET b - e \<in> \<int>" using assms(1,2) by (rule Ints_diff)
  have 1: "fl (MAGIC_NUMBER_OFFSET b - e) = MAGIC_NUMBER_OFFSET b - e"
    using d assms(3) by (intro fl_Ints) simp_all
  have "(MAGIC_NUMBER_OFFSET b - e) * 10 \<in> \<int>" using d by (intro Ints_mult) simp_all
  moreover have "\<bar>(MAGIC_NUMBER_OFFSET b - e) * 10\<bar> < 9007199254740992"
    using assms(3) by (simp add: abs_mult)
  ultimately have 2: "fl ((MAGIC_NUMBER_OFFSET b - e) * 10) = (MAGIC_NUMBER_OFFSET b - e) * 10"
    by (rule fl_Ints)
  show ?thesis by (simp only: expirationTimeToMs_def UNIT_SIZE_def 1 2)
qed

text \<open>
  A bucketed expiration time lies more than the timeout and at most the timeout plus
  one bucket after the current time, and below the offset.
\<close>

lemma bucket_msUntil:
  assumes ex: "exact_inputs b ct H B"
  shows "fl (expirationTimeToMs b (computeExpirationBucket b ct H B) - expirationTimeToMs b ct) =
           ((real_of_int \<lfloor>(MAGIC_NUMBER_OFFSET b - ct + H / 10) / (B / 10)\<rfloor> + 1) * (B / 10)
              - (MAGIC_NUMBER_OFFSET b - ct)) * 10"
    and "H < fl (expirationTimeToMs b (computeExpirationBucket b ct H B) - expirationTimeToMs b ct)"
    and "fl (expirationTimeToMs b (computeExpirationBucket b ct H B) - expirationTimeToMs b ct)
           \<le> H + B"
    and "computeExpirationBucket b ct H B < MAGIC_NUMBER_OFFSET b"
    and "computeExpirationBucket b ct H B \<in> \<int>"
proof -
  let ?M = "MAGIC_NUMBER_OFFSET b"
  let ?v = "?M - ct + H / 10"
  let ?p = "B / 10"
  let ?c = "(real_of_int \<lfloor>?v / ?p\<rfloor> + 1) * ?p"
  note I = computeExpirationBucket_int [OF ex]
  have e: "computeExpirationBucket b ct H B = ?M - ?c" by (rule I(1))
  have p0: "0 < ?p" using I(5) by simp
  have c0: "?v < ?c" by (rule bucket_bounds(1) [OF p0])
  have c1: "?c \<le> ?v + ?p" by (rule bucket_bounds(2) [OF p0])
  have cti: "ct \<in> \<int>" and ctb: "\<bar>ct\<bar> \<le> 1099511627776"
    using ex by (simp_all add: exact_inputs_def)
  have ci: "?c \<in> \<int>" using I(3) by (intro Ints_mult Ints_add) simp_all
  have ei: "?M - ?c \<in> \<int>" using I(8) ci by (rule Ints_diff)
  show "computeExpirationBucket b ct H B \<in> \<int>" using ei by (simp only: e)
  show "computeExpirationBucket b ct H B < ?M" using c0 I(4) by (simp add: e)
  have cb: "\<bar>?c\<bar> \<le> 4 * 1099511627776" using c0 c1 I(4,6,7) by simp
  have t1: "expirationTimeToMs b (?M - ?c) = ?c * 10"
    using expirationTimeToMs_int [OF I(8) ei] cb by simp
  have t2: "expirationTimeToMs b ct = (?M - ct) * 10"
    using expirationTimeToMs_int [OF I(8) cti] I(9) ctb by simp
  have x1: "?c * 10 \<in> \<int>" by (rule Ints_mult [OF ci]) simp
  have x2: "(?M - ct) * 10 \<in> \<int>" by (rule Ints_mult [OF Ints_diff [OF I(8) cti]]) simp
  have di: "?c * 10 - (?M - ct) * 10 \<in> \<int>" by (rule Ints_diff [OF x1 x2])
  have db: "\<bar>?c * 10 - (?M - ct) * 10\<bar> < 9007199254740992"
    using cb I(9) ctb by simp
  have f: "fl (?c * 10 - (?M - ct) * 10) = ?c * 10 - (?M - ct) * 10"
    using di db by (rule fl_Ints)
  have m: "fl (expirationTimeToMs b (computeExpirationBucket b ct H B) - expirationTimeToMs b ct)
      = (?c - (?M - ct)) * 10"
    by (simp only: e t1 t2 f) (simp add: algebra_simps)
  show "fl (expirationTimeToMs b (computeExpirationBucket b ct H B) - expirationTimeToMs b ct) =
           (?c - (?M - ct)) * 10" by (rule m)
  show "H < fl (expirationTimeToMs b (computeExpirationBucket b ct H B) - expirationTimeToMs b ct)"
    using c0 by (simp add: m)
  show "fl (expirationTimeToMs b (computeExpirationBucket b ct H B) - expirationTimeToMs b ct)
           \<le> H + B"
    using c1 by (simp add: m)
qed

lemma MAX_react: "MAX_SIGNED_31_BIT_INT (react dev) = 1073741823"
  by (simp add: react_def)

lemma exact_inputs_react:
  assumes "ct \<in> \<int>" "0 \<le> ct" "ct < MAGIC_NUMBER_OFFSET (react dev)"
  shows "exact_inputs (react dev) ct (HIGH_PRIORITY_EXPIRATION (react dev)) 100"
    and "exact_inputs (react dev) ct 5000 250"
  using assms
  by (simp_all add: exact_inputs_def MAGIC_react MAX_react DEV_react
      HIGH_PRIORITY_EXPIRATION_def UNIT_SIZE_def)

text \<open>
  With the 31-bit maximum the offset minus one is \<open>1073741820\<close>, a multiple of 10 and
  not of 25: a bucket of the interactive expiration can end exactly on \<open>Never\<close>, a
  bucket of the asynchronous one cannot.
\<close>

lemma async_not_Never:
  assumes "ct \<in> \<int>" "0 \<le> ct" "ct < MAGIC_NUMBER_OFFSET (react dev)"
  shows "computeAsyncExpiration (react dev) ct \<noteq> Never"
proof
  assume e: "computeAsyncExpiration (react dev) ct = Never"
  let ?v = "1073741821 - ct + 500"
  have "computeExpirationBucket (react dev) ct 5000 250 =
      1073741821 - (real_of_int \<lfloor>?v / 25\<rfloor> + 1) * 25"
    using computeExpirationBucket_int(1) [OF exact_inputs_react(2) [OF assms]]
    by (simp add: MAGIC_react)
  then have "(real_of_int \<lfloor>?v / 25\<rfloor> + 1) * 25 = 1073741820"
    using e by (simp add: computeAsyncExpiration_def Never_def LOW_PRIORITY_EXPIRATION_def
        LOW_PRIORITY_BATCH_SIZE_def)
  then have "real_of_int ((\<lfloor>?v / 25\<rfloor> + 1) * 25) = real_of_int 1073741820" by simp
  then have "(\<lfloor>?v / 25\<rfloor> + 1) * 25 = (1073741820::int)" by (simp only: of_int_eq_iff)
  then show False by presburger
qed

lemma interactive_Never_iff:
  assumes "ct \<in> \<int>" "0 \<le> ct" "ct < MAGIC_NUMBER_OFFSET (react dev)"
  shows "computeInteractiveExpiration (react dev) ct = Never \<longleftrightarrow>
     (if dev then 51 < ct \<and> ct \<le> 61 else 16 < ct \<and> ct \<le> 26)"
proof -
  define h :: real where "h = (if dev then 50 else 15)"
  let ?v = "1073741821 - ct + h"
  have H: "HIGH_PRIORITY_EXPIRATION (react dev) / 10 = h"
    by (simp add: HIGH_PRIORITY_EXPIRATION_def DEV_react h_def)
  have "computeExpirationBucket (react dev) ct (HIGH_PRIORITY_EXPIRATION (react dev)) 100 =
      1073741821 - (real_of_int \<lfloor>?v / 10\<rfloor> + 1) * 10"
    using computeExpirationBucket_int(1) [OF exact_inputs_react(1) [OF assms]]
    by (simp add: MAGIC_react H)
  then have "computeInteractiveExpiration (react dev) ct = Never \<longleftrightarrow>
      (real_of_int \<lfloor>?v / 10\<rfloor> + 1) * 10 = 1073741820"
    by (auto simp add: computeInteractiveExpiration_def HIGH_PRIORITY_BATCH_SIZE_def Never_def)
  also have "\<dots> \<longleftrightarrow> real_of_int ((\<lfloor>?v / 10\<rfloor> + 1) * 10) = real_of_int 1073741820" by simp
  also have "\<dots> \<longleftrightarrow> (\<lfloor>?v / 10\<rfloor> + 1) * 10 = (1073741820::int)" by (simp only: of_int_eq_iff)
  also have "\<dots> \<longleftrightarrow> \<lfloor>?v / 10\<rfloor> = 107374181" by presburger
  also have "\<dots> \<longleftrightarrow> 1073741810 \<le> ?v \<and> ?v < 1073741820" by (simp add: floor_eq_iff)
  also have "\<dots> \<longleftrightarrow> (if dev then 51 < ct \<and> ct \<le> 61 else 16 < ct \<and> ct \<le> 26)"
    by (auto simp add: h_def)
  finally show ?thesis .
qed

lemma fl_high: "fl (HIGH_PRIORITY_EXPIRATION b + HIGH_PRIORITY_BATCH_SIZE) =
    HIGH_PRIORITY_EXPIRATION b + 100"
  by (simp add: HIGH_PRIORITY_EXPIRATION_def HIGH_PRIORITY_BATCH_SIZE_def)

lemma fl_low: "fl (LOW_PRIORITY_EXPIRATION + LOW_PRIORITY_BATCH_SIZE) = 5250"
  by (simp add: LOW_PRIORITY_EXPIRATION_def LOW_PRIORITY_BATCH_SIZE_def)

lemma infer_interactive:
  assumes "ct \<in> \<int>" "0 \<le> ct" "ct < MAGIC_NUMBER_OFFSET (react dev)"
  shows "inferPriorityFromExpirationTime (react dev) ct
           (computeInteractiveExpiration (react dev) ct) =
         (if (if dev then 51 < ct \<and> ct \<le> 61 else 16 < ct \<and> ct \<le> 26)
          then IdlePriority else UserBlockingPriority)"
proof -
  let ?b = "react dev"
  let ?H = "HIGH_PRIORITY_EXPIRATION ?b"
  let ?e = "computeExpirationBucket ?b ct ?H 100"
  let ?m = "fl (expirationTimeToMs ?b ?e - expirationTimeToMs ?b ct)"
  note ex = exact_inputs_react(1) [OF assms]
  have H: "0 < ?H" "?H \<le> 500" by (simp_all add: HIGH_PRIORITY_EXPIRATION_def)
  have e: "computeInteractiveExpiration ?b ct = ?e"
    by (simp add: computeInteractiveExpiration_def HIGH_PRIORITY_BATCH_SIZE_def)
  have m1: "?H < ?m" by (rule bucket_msUntil(2) [OF ex])
  have m2: "?m \<le> ?H + 100" by (rule bucket_msUntil(3) [OF ex])
  have "?e < MAGIC_NUMBER_OFFSET ?b" by (rule bucket_msUntil(4) [OF ex])
  then have ns: "?e \<noteq> Sync ?b" by (simp add: MAGIC_react Sync_react)
  have nv: "?e = Never \<longleftrightarrow> (if dev then 51 < ct \<and> ct \<le> 61 else 16 < ct \<and> ct \<le> 26)"
    using interactive_Never_iff [OF assms] by (simp only: e)
  show ?thesis
  proof (cases "?e = Never")
    case True
    then show ?thesis using ns nv
      by (simp add: e inferPriorityFromExpirationTime_def)
  next
    case False
    then show ?thesis using ns nv m1 m2 H
      by (simp add: e inferPriorityFromExpirationTime_def fl_high Let_def)
  qed
qed

lemma infer_async:
  assumes "ct \<in> \<int>" "0 \<le> ct" "ct < MAGIC_NUMBER_OFFSET (react dev)"
  shows "inferPriorityFromExpirationTime (react dev) ct
           (computeAsyncExpiration (react dev) ct) = NormalPriority"
proof -
  let ?b = "react dev"
  let ?e = "computeExpirationBucket ?b ct 5000 250"
  let ?m = "fl (expirationTimeToMs ?b ?e - expirationTimeToMs ?b ct)"
  note ex = exact_inputs_react(2) [OF assms]
  have H: "0 < HIGH_PRIORITY_EXPIRATION ?b" "HIGH_PRIORITY_EXPIRATION ?b \<le> 500"
    by (simp_all add: HIGH_PRIORITY_EXPIRATION_def)
  have e: "computeAsyncExpiration ?b ct = ?e"
    by (simp add: computeAsyncExpiration_def LOW_PRIORITY_EXPIRATION_def
        LOW_PRIORITY_BATCH_SIZE_def)
  have m1: "5000 < ?m" by (rule bucket_msUntil(2) [OF ex])
  have m2: "?m \<le> 5000 + 250" by (rule bucket_msUntil(3) [OF ex])
  have "?e < MAGIC_NUMBER_OFFSET ?b" by (rule bucket_msUntil(4) [OF ex])
  then have ns: "?e \<noteq> Sync ?b" by (simp add: MAGIC_react Sync_react)
  have nv: "?e \<noteq> Never" using async_not_Never [OF assms] e by simp
  show ?thesis using ns nv m1 m2 H
    by (simp add: e inferPriorityFromExpirationTime_def fl_high fl_low Let_def)
qed

lemmas et_defs = msToExpirationTime_def expirationTimeToMs_def ceiling_num_def
  computeExpirationBucket_def MAGIC_NUMBER_OFFSET_def Batched_def Sync_def UNIT_SIZE_def
  bitor0_def toInt32_def trunc_def react_def computeAsyncExpiration_def
  computeInteractiveExpiration_def HIGH_PRIORITY_EXPIRATION_def HIGH_PRIORITY_BATCH_SIZE_def
  LOW_PRIORITY_EXPIRATION_def LOW_PRIORITY_BATCH_SIZE_def inferPriorityFromExpirationTime_def
  Never_def

section \<open>Expiration times: the claims\<close>

text \<open>
  C2, as amended. For every integer \<open>currentTime\<close>, every \<open>expirationInMs \<ge> 0\<close> and every
  \<open>bucketSizeMs > 0\<close> that are whole multiples of 10 (with an integer
  \<open>MAX_SIGNED_31_BIT_INT\<close>, all four of magnitude at most \<open>2^40\<close>), such that
  \<open>currentTime\<close> is at most \<open>MAGIC_NUMBER_OFFSET + expirationInMs / 10\<close> and the quotient
  \<open>(MAGIC_NUMBER_OFFSET - currentTime + expirationInMs / 10) / (bucketSizeMs / 10)\<close> is
  below \<open>2^31\<close>: \<open>computeExpirationBucket\<close> equals \<open>MAGIC_NUMBER_OFFSET\<close> minus the spec's
  \<open>ceilingBucket\<close> (with the floor, in exact arithmetic) of that value and precision.
  For \<open>currentTime = 1000\<close>, \<open>expirationInMs = 150\<close>, \<open>bucketSizeMs = 100\<close> and the 31-bit
  maximum, the result is \<open>981\<close>, which is \<open>190\<close> ms after \<open>1000\<close>, within \<open>[100, 200]\<close>.
\<close>

theorem computeExpirationBucket_formula:
  assumes "exact_inputs cfg currentTime expirationInMs bucketSizeMs"
  shows "computeExpirationBucket cfg currentTime expirationInMs bucketSizeMs =
           MAGIC_NUMBER_OFFSET cfg -
             ceilingBucket_spec
               (MAGIC_NUMBER_OFFSET cfg - currentTime + expirationInMs / UNIT_SIZE)
               (bucketSizeMs / UNIT_SIZE)
       \<and> computeExpirationBucket (react dev) 1000 150 100 = 981
       \<and> fl (expirationTimeToMs (react dev) (computeExpirationBucket (react dev) 1000 150 100)
           - expirationTimeToMs (react dev) 1000) = 190
       \<and> 100 \<le> fl (expirationTimeToMs (react dev)
             (computeExpirationBucket (react dev) 1000 150 100)
           - expirationTimeToMs (react dev) 1000)
       \<and> fl (expirationTimeToMs (react dev) (computeExpirationBucket (react dev) 1000 150 100)
           - expirationTimeToMs (react dev) 1000) \<le> 200"
proof -
  have g: "computeExpirationBucket cfg currentTime expirationInMs bucketSizeMs =
      MAGIC_NUMBER_OFFSET cfg -
        ceilingBucket_spec
          (MAGIC_NUMBER_OFFSET cfg - currentTime + expirationInMs / UNIT_SIZE)
          (bucketSizeMs / UNIT_SIZE)"
    using computeExpirationBucket_int(1) [OF assms]
    by (simp add: ceilingBucket_spec_def UNIT_SIZE_def)
  have ex: "exact_inputs (react dev) 1000 150 100"
    by (simp add: exact_inputs_def MAGIC_react MAX_react UNIT_SIZE_def)
  have c: "computeExpirationBucket (react dev) 1000 150 100 = 981"
    using computeExpirationBucket_int(1) [OF ex] by (simp add: MAGIC_react)
  have d: "fl (expirationTimeToMs (react dev) (computeExpirationBucket (react dev) 1000 150 100)
           - expirationTimeToMs (react dev) 1000) = 190"
    using bucket_msUntil(1) [OF ex] by (simp add: MAGIC_react)
  show ?thesis using g c d by simp
qed

text \<open>The theorem at \<open>currentTime = 1000\<close> with the timeout and bucket of the normal priority.\<close>

theorem computeExpirationBucket_formula_witness:
  "exact_inputs (react False) 1000 5000 250
   \<and> computeExpirationBucket (react False) 1000 5000 250 =
       MAGIC_NUMBER_OFFSET (react False) -
         ceilingBucket_spec (MAGIC_NUMBER_OFFSET (react False) - 1000 + 5000 / UNIT_SIZE)
           (250 / UNIT_SIZE)
   \<and> computeExpirationBucket (react False) 1000 5000 250 = 496"
proof -
  have ex: "exact_inputs (react False) 1000 5000 250"
    by (simp add: exact_inputs_def MAGIC_react MAX_react UNIT_SIZE_def)
  show ?thesis
    using ex computeExpirationBucket_formula [OF ex, of False]
    by (simp add: MAGIC_react UNIT_SIZE_def ceilingBucket_spec_def)
qed

text \<open>
  C2 as stated fails where \<open>| 0\<close> is not the floor, and where the arithmetic rounds.
  With the current time \<open>Batched\<close> and no timeout the quotient is \<open>-1/25\<close>: \<open>| 0\<close> gives
  \<open>0\<close> and the floor \<open>-1\<close>. With a timeout of \<open>10^12\<close> ms the quotient is above \<open>2^31\<close>
  and \<open>| 0\<close> wraps around. With the current time \<open>21 + 2^-30\<close>, which is not an integer,
  \<open>MAGIC_NUMBER_OFFSET - currentTime\<close> is rounded up to \<open>1073741800\<close> and the result is one
  bucket lower than the formula's.
\<close>

theorem computeExpirationBucket_formula_counterexample:
  "(0::real) \<le> 0 \<and> (0::real) < 250
   \<and> computeExpirationBucket (react False) (Batched (react False)) 0 250 = 1073741796
   \<and> MAGIC_NUMBER_OFFSET (react False) -
       ceilingBucket_spec
         (MAGIC_NUMBER_OFFSET (react False) - Batched (react False) + 0 / UNIT_SIZE)
         (250 / UNIT_SIZE) = 1073741821
   \<and> (0::real) \<le> 1000000000000
   \<and> computeExpirationBucket (react False) 0 1000000000000 250 = 7374182396
   \<and> MAGIC_NUMBER_OFFSET (react False) -
       ceilingBucket_spec
         (MAGIC_NUMBER_OFFSET (react False) - 0 + 1000000000000 / UNIT_SIZE)
         (250 / UNIT_SIZE) = - 100000000004
   \<and> (0::real) \<le> 5000
   \<and> computeExpirationBucket (react False) (21 + 1 / 1073741824) 5000 250 = - 504
   \<and> MAGIC_NUMBER_OFFSET (react False) -
       ceilingBucket_spec
         (MAGIC_NUMBER_OFFSET (react False) - (21 + 1 / 1073741824) + 5000 / UNIT_SIZE)
         (250 / UNIT_SIZE) = - 479"
  by code_simp

text \<open>
  C3, as amended. For every pair of delays \<open>0 \<le> a < b\<close> below \<open>2^31 * 10\<close> ms,
  \<open>msToExpirationTime(a)\<close> is at least \<open>msToExpirationTime(b)\<close>, and strictly greater
  when \<open>b\<close> is at least one unit (10 ms) after \<open>a\<close>.
\<close>

theorem msToExpirationTime_order:
  assumes "0 \<le> a" "a < b" "b < 21474836480"
  shows "msToExpirationTime cfg b \<le> msToExpirationTime cfg a
       \<and> (a + 10 \<le> b \<longrightarrow> msToExpirationTime cfg b < msToExpirationTime cfg a)"
proof -
  have hi: "b / 10 < 2147483648" using assms(3) by simp
  show ?thesis
    using msToExpirationTime_mono [OF assms(1,2) hi] msToExpirationTime_strict [OF assms(1) _ hi]
    by blast
qed

theorem msToExpirationTime_order_witness:
  "(0::real) \<le> 0 \<and> (0::real) < 25 \<and> (25::real) < 21474836480
   \<and> msToExpirationTime (react False) 25 \<le> msToExpirationTime (react False) 0
   \<and> (0::real) + 10 \<le> 25
   \<and> msToExpirationTime (react False) 25 < msToExpirationTime (react False) 0"
  using msToExpirationTime_order [of 0 25 "react False"] by simp

text \<open>
  C3 as stated fails for two delays in the same unit of 10 ms, which get the same
  expiration time, and for a delay of \<open>2^31 * 10\<close> ms, where \<open>| 0\<close> wraps around.
\<close>

theorem msToExpirationTime_order_counterexample:
  "(0::real) \<le> 0 \<and> (0::real) < 5
   \<and> \<not> msToExpirationTime (react False) 0 > msToExpirationTime (react False) 5
   \<and> (0::real) < 21474836480
   \<and> \<not> msToExpirationTime (react False) 0 > msToExpirationTime (react False) 21474836480"
  by (simp add: et_defs)

text \<open>
  C4, as amended, for the build with the 31-bit maximum, in production and in debug.
  For every integer \<open>currentTime\<close> that is non-negative and below the magic offset:
  the priority inferred from \<open>computeInteractiveExpiration(currentTime)\<close> is
  \<open>UserBlockingPriority\<close>, except for \<open>16 < currentTime \<le> 26\<close> in production and
  \<open>51 < currentTime \<le> 61\<close> in debug, where the expiration time is the sentinel \<open>Never\<close>
  and the inferred priority is \<open>IdlePriority\<close>; the priority inferred from
  \<open>computeAsyncExpiration(currentTime)\<close> is \<open>NormalPriority\<close>. For every current time
  \<open>t\<close>, \<open>Sync\<close> gives \<open>ImmediatePriority\<close> and \<open>Never\<close> gives \<open>IdlePriority\<close>.
\<close>

theorem inferPriority_roundtrip:
  assumes "ct \<in> \<int>" "0 \<le> ct" "ct < MAGIC_NUMBER_OFFSET (react dev)"
  shows "inferPriorityFromExpirationTime (react dev) ct
           (computeInteractiveExpiration (react dev) ct) =
         (if (if dev then 51 < ct \<and> ct \<le> 61 else 16 < ct \<and> ct \<le> 26)
          then IdlePriority else UserBlockingPriority)
       \<and> inferPriorityFromExpirationTime (react dev) ct
           (computeAsyncExpiration (react dev) ct) = NormalPriority
       \<and> inferPriorityFromExpirationTime (react dev) t (Sync (react dev)) = ImmediatePriority
       \<and> inferPriorityFromExpirationTime (react dev) t Never = IdlePriority"
  using infer_interactive [OF assms] infer_async [OF assms]
  by (simp add: inferPriorityFromExpirationTime_def Sync_react Never_def)

theorem inferPriority_roundtrip_witness:
  "(1000::real) \<in> \<int> \<and> (0::real) \<le> 1000 \<and> 1000 < MAGIC_NUMBER_OFFSET (react False)
   \<and> inferPriorityFromExpirationTime (react False) 1000
        (computeInteractiveExpiration (react False) 1000) = UserBlockingPriority
   \<and> inferPriorityFromExpirationTime (react False) 1000
        (computeAsyncExpiration (react False) 1000) = NormalPriority
   \<and> inferPriorityFromExpirationTime (react False) 1000 (Sync (react False)) = ImmediatePriority
   \<and> inferPriorityFromExpirationTime (react False) 1000 Never = IdlePriority"
  using inferPriority_roundtrip [of 1000 False 1000] by (simp add: MAGIC_react)

text \<open>
  C4 as stated fails at \<open>currentTime = 20\<close> in production and at \<open>55\<close> in debug: the
  interactive expiration time is \<open>1\<close>, which is \<open>Never\<close>. It also fails at the
  current time \<open>21 + 2^-23\<close>, which is not an integer: the difference of the two times in
  milliseconds is rounded to a double just above \<open>5250\<close>, and the priority inferred from
  the asynchronous expiration time is \<open>IdlePriority\<close>.
\<close>

theorem inferPriority_interactive_counterexample:
  "(0::real) \<le> 20 \<and> 20 < MAGIC_NUMBER_OFFSET (react False)
   \<and> computeInteractiveExpiration (react False) 20 = Never
   \<and> inferPriorityFromExpirationTime (react False) 20
        (computeInteractiveExpiration (react False) 20) = IdlePriority
   \<and> inferPriorityFromExpirationTime (react False) 20
        (computeInteractiveExpiration (react False) 20) \<noteq> UserBlockingPriority
   \<and> (0::real) \<le> 55 \<and> 55 < MAGIC_NUMBER_OFFSET (react True)
   \<and> inferPriorityFromExpirationTime (react True) 55
        (computeInteractiveExpiration (react True) 55) \<noteq> UserBlockingPriority
   \<and> (0::real) \<le> 21 + 1 / 8388608 \<and> 21 + 1 / 8388608 < MAGIC_NUMBER_OFFSET (react False)
   \<and> inferPriorityFromExpirationTime (react False) (21 + 1 / 8388608)
        (computeAsyncExpiration (react False) (21 + 1 / 8388608)) = IdlePriority
   \<and> inferPriorityFromExpirationTime (react False) (21 + 1 / 8388608)
        (computeAsyncExpiration (react False) (21 + 1 / 8388608)) \<noteq> NormalPriority"
  by code_simp

section \<open>The DOM implementation: lemmas\<close>

lemma requestAnimationFrameWithTimeout_eq:
  "requestAnimationFrameWithTimeout s =
     s\<lparr>rAFID := Some (nextHandle s), rAFTimeoutID := Some (nextHandle s + 1),
       animationFrames := animationFrames s @ [nextHandle s],
       timeouts := timeouts s @ [nextHandle s + 1],
       nextHandle := nextHandle s + 2\<rparr>"
  by (simp add: requestAnimationFrameWithTimeout_def localRequestAnimationFrame_def
      localSetTimeout_def)

text \<open>
  For an integer frame rate the floor of the rounded quotient is the floor of the exact
  one.
\<close>

lemma forceFrameRate_integer:
  assumes "fps \<in> \<int>" "0 < fps" "fps \<le> 125"
  shows "activeFrameTime (forceFrameRate fps s) = real_of_int \<lfloor>1000 / fps\<rfloor>"
proof -
  from assms(1) obtain n where n: "fps = real_of_int n" by (rule Ints_cases)
  have "1 \<le> n" "n < 9007199254740992" using assms n by simp_all
  from floor_fl_quotient [OF _ _ this, of 1000]
  have "\<lfloor>fl (1000 / fps)\<rfloor> = \<lfloor>1000 / fps\<rfloor>"
    by (simp add: n floor_divide_of_int_eq [of 1000, simplified])
  then show ?thesis using assms by (simp add: forceFrameRate_def)
qed

text \<open>The calls of a callback's body record no invocation.\<close>

lemma invoked_requestHostCallback [simp]:
  "invoked (requestHostCallback c t s) = invoked s"
  by (simp add: requestHostCallback_def requestAnimationFrameWithTimeout_eq postMessage_def
      Let_def)

lemma invoked_cancelHostCallback [simp]: "invoked (cancelHostCallback s) = invoked s"
  by (simp add: cancelHostCallback_def)

lemma invoked_forceFrameRate [simp]: "invoked (forceFrameRate fps s) = invoked s"
  by (simp add: forceFrameRate_def)

lemma invoked_run_call [simp]: "invoked (run_call c s) = invoked s"
  by (cases c) simp_all

lemma invoked_fold_run_call [simp]: "invoked (fold run_call cs s) = invoked s"
  by (induction cs arbitrary: s) simp_all

lemma invoked_invoke [simp]:
  "invoked (fst (invoke cb d s)) = invoked s @ [(cb, d)]"
  by (simp add: invoke_def)

lemma snd_invoke [simp]: "snd (invoke cb d s) = (if throws cb then Threw else Returned)"
  by (simp add: invoke_def)

lemma flushHostCallback_Some:
  "flushHostCallback (Some cb) d s =
     ((fst (invoke cb d (s\<lparr>isFlushingHostCallback := True\<rparr>)))\<lparr>isFlushingHostCallback := False\<rparr>,
      if throws cb then Threw else Returned)"
  by (simp add: flushHostCallback_def invoke_def)

text \<open>
  Which callback is scheduled after the calls of a body: the last one asked for, if
  no cancellation follows it.
\<close>

lemma scheduled_requestHostCallback [simp]:
  "scheduledHostCallback (requestHostCallback c t s) = Some c"
  by (simp add: requestHostCallback_def requestAnimationFrameWithTimeout_eq postMessage_def
      Let_def)

lemma timeoutTime_requestHostCallback [simp]:
  "timeoutTime (requestHostCallback c t s) = t"
  by (simp add: requestHostCallback_def requestAnimationFrameWithTimeout_eq postMessage_def
      Let_def)

lemma scheduled_forceFrameRate [simp]:
  "scheduledHostCallback (forceFrameRate fps s) = scheduledHostCallback s"
  by (simp add: forceFrameRate_def)











lemma consistent_requestHostCallback:
  "consistent s \<Longrightarrow> consistent (requestHostCallback c t s)"
  by (auto simp add: consistent_def requestHostCallback_def requestAnimationFrameWithTimeout_eq
      postMessage_def Let_def split: option.splits if_splits)

lemma consistent_cancelHostCallback: "consistent s \<Longrightarrow> consistent (cancelHostCallback s)"
  by (auto simp add: consistent_def cancelHostCallback_def split: if_splits)

lemma consistent_forceFrameRate: "consistent s \<Longrightarrow> consistent (forceFrameRate fps s)"
  by (auto simp add: consistent_def forceFrameRate_def split: if_splits)

lemma consistent_run_call: "consistent s \<Longrightarrow> consistent (run_call x s)"
  by (cases x)
    (simp_all add: consistent_requestHostCallback consistent_cancelHostCallback
      consistent_forceFrameRate)

lemma consistent_fold_run_call: "consistent s \<Longrightarrow> consistent (fold run_call cs s)"
  by (induction cs arbitrary: s) (simp_all add: consistent_run_call)

lemma consistent_animationTick:
  assumes "if isMessageEventScheduled s then 0 < messages s else True"
  shows "consistent (animationTick t s)"
  using assms
  by (auto simp add: consistent_def animationTick_def requestAnimationFrameWithTimeout_eq
      postMessage_def Let_def split: if_splits)

lemma consistent_onmessage: "consistent s \<Longrightarrow> consistent (fst (onmessage now (s\<lparr>messages := m\<rparr>)))"
proof -
  assume c: "consistent s"
  let ?s2 = "s\<lparr>messages := m, isMessageEventScheduled := False, scheduledHostCallback := None,
     timeoutTime := - 1\<rparr>"
  have c2: "consistent ?s2" using c by (auto simp add: consistent_def split: if_splits)
  have fl: "consistent (fst (flushHostCallback prev d ?s2))" for prev d
  proof (cases prev)
    case None
    then show ?thesis using c2 by (simp add: flushHostCallback_def)
  next
    case (Some cb)
    have "consistent (?s2\<lparr>isFlushingHostCallback := True, invoked := invoked ?s2 @ [(cb, d)]\<rparr>)"
      using c2 by (auto simp add: consistent_def split: if_splits)
    then have "consistent (fold run_call (body cb)
        (?s2\<lparr>isFlushingHostCallback := True, invoked := invoked ?s2 @ [(cb, d)]\<rparr>))"
      by (rule consistent_fold_run_call)
    then show ?thesis using Some
      by (auto simp add: flushHostCallback_def invoke_def consistent_def split: if_splits)
  qed
  show ?thesis
  proof (cases "frameDeadline s - now \<le> 0 \<and> \<not> (timeoutTime s \<noteq> - 1 \<and> timeoutTime s \<le> now)")
    case True
    then show ?thesis using c
      by (auto simp add: onmessage_def consistent_def requestAnimationFrameWithTimeout_eq Let_def
          split: if_splits)
  next
    case False
    then have "fst (onmessage now (s\<lparr>messages := m\<rparr>)) =
        fst (flushHostCallback (scheduledHostCallback s) (frameDeadline s - now \<le> 0) ?s2)"
      by (auto simp add: onmessage_def Let_def)
    then show ?thesis using fl by simp
  qed
qed

lemma consistent_fire: "consistent s \<Longrightarrow> consistent (fst (fire e s))"
proof (cases e)
  case (AnimationFrame h t)
  assume c: "consistent s"
  show ?thesis
  proof (cases "h \<in> set (animationFrames s)")
    case True
    have "consistent (animationTick t (localClearTimeout (rAFTimeoutID s)
        (s\<lparr>animationFrames := removeAll h (animationFrames s)\<rparr>)))"
      using c by (intro consistent_animationTick)
        (auto simp add: consistent_def localClearTimeout_def split: option.splits if_splits)
    then show ?thesis using AnimationFrame True by (simp add: Let_def)
  next
    case False
    then show ?thesis using AnimationFrame c by simp
  qed
next
  case (Timeout h t)
  assume c: "consistent s"
  show ?thesis
  proof (cases "h \<in> set (timeouts s)")
    case True
    have "consistent (animationTick t (localCancelAnimationFrame (rAFID s)
        (s\<lparr>timeouts := removeAll h (timeouts s)\<rparr>)))"
      using c by (intro consistent_animationTick)
        (auto simp add: consistent_def localCancelAnimationFrame_def split: option.splits if_splits)
    then show ?thesis using Timeout True by (simp add: Let_def)
  next
    case False
    then show ?thesis using Timeout c by simp
  qed
next
  case (Message now)
  assume c: "consistent s"
  then show ?thesis using Message consistent_onmessage [OF c, of now "messages s - 1"] by simp
qed

lemma consistent_run: "consistent s \<Longrightarrow> consistent (run es s)"
  by (induction es arbitrary: s) (simp_all add: consistent_fire)







section \<open>The fallback: lemmas\<close>

lemma fb_invoked_run_call [simp]: "fb_invoked (run_call_fallback c s) = fb_invoked s"
  by (cases c)
    (simp_all add: requestHostCallback_fallback_def cancelHostCallback_fallback_def
      forceFrameRate_fallback_def)

lemma fb_invoked_fold_run_call [simp]:
  "fb_invoked (fold run_call_fallback cs s) = fb_invoked s"
  by (induction cs arbitrary: s) simp_all

lemma flushCallback_Some:
  "fb_callback s = Some cb \<Longrightarrow>
   flushCallback d s =
     ((fold run_call_fallback (body cb) (s\<lparr>fb_invoked := fb_invoked s @ [(cb, d)]\<rparr>))
        \<lparr>fb_callback := None\<rparr>,
      if throws cb then Threw else Returned)"
  by (simp add: flushCallback_def invoke_fallback_def)

lemma fb_callback_flushCallback [simp]: "fb_callback (fst (flushCallback d s)) = None"
  by (cases "fb_callback s") (simp_all add: flushCallback_def invoke_fallback_def split: prod.splits)

text \<open>The invariant \<open>flush_pending\<close>.\<close>

lemma flush_pending_initial: "flush_pending initial_fallback"
  by (simp add: flush_pending_def initial_fallback_def)

lemma flush_pending_request:
  "flush_pending s \<Longrightarrow> flush_pending (requestHostCallback_fallback cb ms s)"
  by (auto simp add: flush_pending_def requestHostCallback_fallback_def)

lemma flush_pending_cancel: "flush_pending (cancelHostCallback_fallback s)"
  by (simp add: flush_pending_def cancelHostCallback_fallback_def)

lemma flush_pending_fireTimer: "flush_pending s \<Longrightarrow> flush_pending (fst (fireTimer s))"
proof (cases "fb_timers s")
  case Nil
  assume "flush_pending s"
  then show ?thesis using Nil by (simp add: fireTimer_def)
next
  case (Cons t ts)
  assume p: "flush_pending s"
  show ?thesis
  proof (cases t)
    case (FlushCallbackTask d)
    then show ?thesis using Cons by (simp add: fireTimer_def flush_pending_def)
  next
    case (RequestHostCallbackTask c)
    have "flush_pending (s\<lparr>fb_timers := ts\<rparr>)"
      using p Cons RequestHostCallbackTask by (simp add: flush_pending_def)
    then show ?thesis using Cons RequestHostCallbackTask
      by (simp add: fireTimer_def flush_pending_request)
  qed
qed






section \<open>The host callback driver: the claims\<close>

text \<open>
  C1. In the DOM implementation, for every state and every clock reading,
  \<open>shouldYieldToHost()\<close> is true exactly when \<open>frameDeadline \<le> getCurrentTime()\<close>; in the
  fallback it is false for every call. The module is the DOM implementation exactly
  when \<open>window\<close> and \<open>MessageChannel\<close> are there.
\<close>

theorem shouldYieldToHost_deadline:
  "shouldYieldToHost (Frame s) now = (frameDeadline s \<le> now)
   \<and> shouldYieldToHost (Fallback f) now = False
   \<and> (case load env of
         Frame s0 \<Rightarrow> hasWindow env \<and> hasMessageChannel env
       | Fallback f0 \<Rightarrow> \<not> (hasWindow env \<and> hasMessageChannel env))"
  by (simp add: load_def)

theorem shouldYieldToHost_deadline_witness:
  "shouldYieldToHost (Frame (initial\<lparr>frameDeadline := 43\<rparr>)) 42 = False
   \<and> shouldYieldToHost (Frame (initial\<lparr>frameDeadline := 43\<rparr>)) 43 = True
   \<and> shouldYieldToHost (Fallback initial_fallback) 43 = False"
  using shouldYieldToHost_deadline [where s = "initial\<lparr>frameDeadline := 43\<rparr>" and now = 42]
    shouldYieldToHost_deadline [where s = "initial\<lparr>frameDeadline := 43\<rparr>" and now = 43
      and f = initial_fallback]
  by simp

text \<open>
  C5. When the message handler runs with a callback pending: if
  \<open>frameDeadline - currentTime \<le> 0\<close> and \<open>timeoutTime \<noteq> -1\<close> and \<open>timeoutTime \<le> currentTime\<close>,
  the callback is called once with \<open>didTimeout = true\<close>; if
  \<open>frameDeadline - currentTime \<le> 0\<close> and the timeout has not passed, nothing is called,
  the callback and its timeout are pending again, and an animation frame is scheduled:
  a new request (with its timer) if none was scheduled, none otherwise; in the remaining
  case the callback is called once with \<open>didTimeout = false\<close>.
\<close>

theorem onmessage_didTimeout:
  assumes "scheduledHostCallback s = Some cb"
  shows "(let s' = fst (onmessage now s)
          in if frameDeadline s - now \<le> 0
             then
               if timeoutTime s \<noteq> - 1 \<and> timeoutTime s \<le> now
               then invoked s' = invoked s @ [(cb, True)]
               else invoked s' = invoked s
                  \<and> scheduledHostCallback s' = Some cb
                  \<and> timeoutTime s' = timeoutTime s
                  \<and> isAnimationFrameScheduled s'
                  \<and> animationFrames s' =
                      (if isAnimationFrameScheduled s then animationFrames s
                       else animationFrames s @ [nextHandle s])
                  \<and> timeouts s' =
                      (if isAnimationFrameScheduled s then timeouts s
                       else timeouts s @ [nextHandle s + 1])
             else invoked s' = invoked s @ [(cb, False)])"
  using assms
  by (simp add: onmessage_def flushHostCallback_Some requestAnimationFrameWithTimeout_eq Let_def)

theorem onmessage_didTimeout_witness:
  "scheduledHostCallback (initial\<lparr>scheduledHostCallback := Some first_cb, timeoutTime := 15,
       frameDeadline := 10\<rparr>) = Some first_cb
   \<and> invoked (fst (onmessage 20 (initial\<lparr>scheduledHostCallback := Some first_cb, timeoutTime := 15,
       frameDeadline := 10\<rparr>))) = [(first_cb, True)]"
  using onmessage_didTimeout [where s = "initial\<lparr>scheduledHostCallback := Some first_cb,
       timeoutTime := 15, frameDeadline := 10\<rparr>" and cb = first_cb and now = 20]
  by (simp add: initial_def)

text \<open>
  C6. On every \<open>animationTick(rafTime)\<close> with a callback pending, with
  \<open>nextFrameTime = rafTime - frameDeadline + activeFrameTime\<close> as the program computes it
  (each of the two operations rounded to a double): when \<open>fpsLocked\<close> is false and both
  \<open>nextFrameTime\<close> and \<open>previousFrameTime\<close> are below \<open>activeFrameTime\<close>,
  \<open>activeFrameTime\<close> becomes the larger of the two, and at least 8, and
  \<open>previousFrameTime\<close> stays; otherwise \<open>previousFrameTime\<close> becomes \<open>nextFrameTime\<close> and
  \<open>activeFrameTime\<close> stays. In both cases \<open>frameDeadline\<close> becomes the rounded sum of
  \<open>rafTime\<close> and the new \<open>activeFrameTime\<close>. The times are of magnitude at most \<open>2^1000\<close>,
  so that no result is beyond the largest double.
\<close>

theorem animationTick_adapts:
  assumes "scheduledHostCallback s \<noteq> None"
    and "\<bar>rafTime\<bar> \<le> 2 ^ 1000" "\<bar>frameDeadline s\<bar> \<le> 2 ^ 1000"
    and "\<bar>activeFrameTime s\<bar> \<le> 2 ^ 1000"
  shows "(let nextFrameTime = fl (fl (rafTime - frameDeadline s) + activeFrameTime s);
              s' = animationTick rafTime s
          in (if \<not> fpsLocked s \<and> nextFrameTime < activeFrameTime s
                 \<and> previousFrameTime s < activeFrameTime s
              then activeFrameTime s' = max (max nextFrameTime (previousFrameTime s)) 8
                 \<and> previousFrameTime s' = previousFrameTime s
              else previousFrameTime s' = nextFrameTime
                 \<and> activeFrameTime s' = activeFrameTime s)
             \<and> frameDeadline s' = fl (rafTime + activeFrameTime s'))"
  using assms(1)
  by (simp add: animationTick_def requestAnimationFrameWithTimeout_eq postMessage_def Let_def)

text \<open>
  Two frames: one that arrives 16 ms after the last, for the second time, and one at
  \<open>0.3\<close> (the double) after the start, where the deadline is the double \<open>33.3\<close>.
\<close>

theorem animationTick_adapts_witness:
  "scheduledHostCallback (initial\<lparr>scheduledHostCallback := Some first_cb, frameDeadline := 59,
       previousFrameTime := 16\<rparr>) \<noteq> None
   \<and> \<bar>42::real\<bar> \<le> 2 ^ 1000 \<and> \<bar>59::real\<bar> \<le> 2 ^ 1000 \<and> \<bar>33::real\<bar> \<le> 2 ^ 1000
   \<and> activeFrameTime (animationTick 42 (initial\<lparr>scheduledHostCallback := Some first_cb,
       frameDeadline := 59, previousFrameTime := 16\<rparr>)) = 16
   \<and> previousFrameTime (animationTick 42 (initial\<lparr>scheduledHostCallback := Some first_cb,
       frameDeadline := 59, previousFrameTime := 16\<rparr>)) = 16
   \<and> frameDeadline (animationTick 42 (initial\<lparr>scheduledHostCallback := Some first_cb,
       frameDeadline := 59, previousFrameTime := 16\<rparr>)) = 58
   \<and> frameDeadline (animationTick (5404319552844595 / 18014398509481984)
         (initial\<lparr>scheduledHostCallback := Some first_cb\<rparr>)) =
       2343279181116211 / 70368744177664
   \<and> previousFrameTime (animationTick (5404319552844595 / 18014398509481984)
         (initial\<lparr>scheduledHostCallback := Some first_cb\<rparr>)) =
       2343279181116211 / 70368744177664"
proof -
  have b: "\<bar>42::real\<bar> \<le> 2 ^ 1000" "\<bar>59::real\<bar> \<le> 2 ^ 1000" "\<bar>33::real\<bar> \<le> 2 ^ 1000"
    "\<bar>5404319552844595 / 18014398509481984 :: real\<bar> \<le> 2 ^ 1000" "\<bar>0::real\<bar> \<le> 2 ^ 1000"
    by (simp_all add: order_trans [OF _ one_le_power [of "2::real" 1000]])
  have f1: "fl (599879470365750067 / 18014398509481984) = 2343279181116211 / 70368744177664"
    by code_simp
  have f2: "fl (5404319552844595 / 18014398509481984) = 5404319552844595 / 18014398509481984"
    by code_simp
  show ?thesis
    using b animationTick_adapts [where s = "initial\<lparr>scheduledHostCallback := Some first_cb,
       frameDeadline := 59, previousFrameTime := 16\<rparr>" and rafTime = 42]
      animationTick_adapts [where s = "initial\<lparr>scheduledHostCallback := Some first_cb\<rparr>"
        and rafTime = "5404319552844595 / 18014398509481984"]
    by (simp add: initial_def Let_def f1 f2)
qed




text \<open>
  C8. \<open>forceFrameRate(fps)\<close>: for \<open>0 < fps \<le> 125\<close> it sets \<open>activeFrameTime\<close> to the
  floor of \<open>1000 / fps\<close> as the program computes it (the quotient rounded to a double, and
  not beyond the largest double) and \<open>fpsLocked\<close> to true; for an integer \<open>fps\<close> that
  is the floor of the exact quotient. For \<open>fps = 0\<close> it sets them to 33 and false; for
  \<open>fps < 0\<close> or \<open>fps > 125\<close> it reports an error and changes nothing else, so
  \<open>activeFrameTime\<close>, \<open>previousFrameTime\<close>, \<open>fpsLocked\<close> and \<open>frameDeadline\<close> stay.
  \<open>forceFrameRate(60)\<close> gives \<open>activeFrameTime = 16\<close>.
\<close>

theorem forceFrameRate_cases:
  "(0 < fps \<and> fps \<le> 125 \<and> 1000 / fps \<le> 2 ^ 1000 \<longrightarrow>
      activeFrameTime (forceFrameRate fps s) = real_of_int \<lfloor>fl (1000 / fps)\<rfloor>
      \<and> fpsLocked (forceFrameRate fps s))
   \<and> (fps \<in> \<int> \<and> 0 < fps \<and> fps \<le> 125 \<longrightarrow>
      activeFrameTime (forceFrameRate fps s) = real_of_int \<lfloor>1000 / fps\<rfloor>)
   \<and> (fps = 0 \<longrightarrow>
      activeFrameTime (forceFrameRate fps s) = 33 \<and> \<not> fpsLocked (forceFrameRate fps s))
   \<and> (fps < 0 \<or> fps > 125 \<longrightarrow>
      forceFrameRate fps s = s\<lparr>consoleErrors := consoleErrors s + 1\<rparr>
      \<and> activeFrameTime (forceFrameRate fps s) = activeFrameTime s
      \<and> previousFrameTime (forceFrameRate fps s) = previousFrameTime s
      \<and> fpsLocked (forceFrameRate fps s) = fpsLocked s
      \<and> frameDeadline (forceFrameRate fps s) = frameDeadline s)
   \<and> activeFrameTime (forceFrameRate 60 s) = 16"
proof -
  have i: "activeFrameTime (forceFrameRate fps s) = real_of_int \<lfloor>1000 / fps\<rfloor>"
    if "fps \<in> \<int>" "0 < fps" "fps \<le> 125"
    using that by (rule forceFrameRate_integer)
  have "activeFrameTime (forceFrameRate 60 s) = real_of_int \<lfloor>1000 / (60::real)\<rfloor>"
    by (rule forceFrameRate_integer) simp_all
  then have s: "activeFrameTime (forceFrameRate 60 s) = 16" by simp
  show ?thesis using i s by (simp add: forceFrameRate_def)
qed

text \<open>
  At \<open>fps = 90\<close>, \<open>0\<close> and \<open>200\<close>, and at the double nearest to \<open>1000 / 9\<close>, where the
  quotient is rounded to \<open>9\<close>.
\<close>

theorem forceFrameRate_cases_witness:
  "(0::real) < 90 \<and> (90::real) \<le> 125 \<and> 1000 / (90::real) \<le> 2 ^ 1000 \<and> (90::real) \<in> \<int>
   \<and> activeFrameTime (forceFrameRate 90 initial) = 11 \<and> fpsLocked (forceFrameRate 90 initial)
   \<and> activeFrameTime (forceFrameRate 0 (forceFrameRate 90 initial)) = 33
   \<and> \<not> fpsLocked (forceFrameRate 0 (forceFrameRate 90 initial))
   \<and> (200::real) > 125
   \<and> activeFrameTime (forceFrameRate 200 (forceFrameRate 90 initial)) = 11
   \<and> fpsLocked (forceFrameRate 200 (forceFrameRate 90 initial))
   \<and> activeFrameTime (forceFrameRate 60 initial) = 16
   \<and> (0::real) < 3909374676536889 / 35184372088832
   \<and> (3909374676536889 / 35184372088832 :: real) \<le> 125
   \<and> 1000 / (3909374676536889 / 35184372088832 :: real) \<le> 2 ^ 1000
   \<and> activeFrameTime (forceFrameRate (3909374676536889 / 35184372088832) initial) = 9"
proof -
  have b: "1000 / (90::real) \<le> 2 ^ 1000"
    "1000 / (3909374676536889 / 35184372088832 :: real) \<le> 2 ^ 1000"
    by (simp_all add: order_trans [OF _ power_increasing [of 4 1000 "2::real"]])
  have f: "\<lfloor>fl (1000 / (3909374676536889 / 35184372088832))\<rfloor> = 9" by code_simp
  show ?thesis
    using b f forceFrameRate_cases [where fps = 90 and s = initial]
      forceFrameRate_cases [where fps = 0 and s = "forceFrameRate 90 initial"]
      forceFrameRate_cases [where fps = 200 and s = "forceFrameRate 90 initial"]
      forceFrameRate_cases [where fps = "3909374676536889 / 35184372088832" and s = initial]
    by simp
qed

text \<open>
  C9. When the message handler calls the pending callback, the handler ends as the
  callback does (it throws exactly when the callback throws) and
  \<open>isFlushingHostCallback\<close> is false afterwards in both cases. In the fallback,
  \<open>_flushCallback\<close> ends as the stored callback does and \<open>_callback\<close> is null afterwards
  in both cases.
\<close>

theorem flush_clears_guard:
  "(scheduledHostCallback s = Some cb
      \<and> (frameDeadline s - now \<le> 0 \<longrightarrow> timeoutTime s \<noteq> - 1 \<and> timeoutTime s \<le> now)
     \<longrightarrow> snd (onmessage now s) = (if throws cb then Threw else Returned)
       \<and> isFlushingHostCallback (fst (onmessage now s)) = False
       \<and> invoked (fst (onmessage now s)) = invoked s @ [(cb, frameDeadline s - now \<le> 0)])
   \<and> (fb_callback f = Some cb
     \<longrightarrow> snd (flushCallback d f) = (if throws cb then Threw else Returned)
       \<and> fb_callback (fst (flushCallback d f)) = None
       \<and> fb_invoked (fst (flushCallback d f)) = fb_invoked f @ [(cb, d)])"
  by (simp add: onmessage_def flushHostCallback_Some flushCallback_Some Let_def)

theorem flush_clears_guard_witness:
  "scheduledHostCallback (initial\<lparr>scheduledHostCallback := Some thrower,
       frameDeadline := 43\<rparr>) = Some thrower
   \<and> throws thrower
   \<and> \<not> frameDeadline (initial\<lparr>scheduledHostCallback := Some thrower,
       frameDeadline := 43\<rparr>) - 11 \<le> 0
   \<and> snd (onmessage 11 (initial\<lparr>scheduledHostCallback := Some thrower,
       frameDeadline := 43\<rparr>)) = Threw
   \<and> isFlushingHostCallback (fst (onmessage 11 (initial\<lparr>scheduledHostCallback := Some thrower,
       frameDeadline := 43\<rparr>))) = False
   \<and> fb_callback (requestHostCallback_fallback thrower None initial_fallback) = Some thrower
   \<and> snd (flushCallback False (requestHostCallback_fallback thrower None initial_fallback)) = Threw
   \<and> fb_callback (fst (flushCallback False
       (requestHostCallback_fallback thrower None initial_fallback))) = None"
proof -
  have t: "throws thrower" by (simp add: thrower_def)
  have f: "fb_callback (requestHostCallback_fallback thrower None initial_fallback) = Some thrower"
    by (simp add: requestHostCallback_fallback_def initial_fallback_def)
  show ?thesis
    using t f flush_clears_guard [where s = "initial\<lparr>scheduledHostCallback := Some thrower,
       frameDeadline := 43\<rparr>" and cb = thrower and now = 11
       and f = "requestHostCallback_fallback thrower None initial_fallback" and d = False]
    by (simp add: initial_def)
qed




end
